theory Spec2Isabelle
  imports Main "HOL-Library.Word"
begin

section \<open>bincalc: a calculator over fixed-width encodings\<close>

text \<open>
  A shallow embedding of \<^verbatim>\<open>src/bincalc.cpp\<close>. The input line is a C string: a
  \<open>string\<close> read through \<open>c_head\<close>, which yields the terminating NUL at its
  end. The cursor (\<^verbatim>\<open>char *& cursor\<close>) is an index into the line. An exception
  is a value \<open>Inl e\<close> returned together with the cursor at the throw, which is what
  \<^verbatim>\<open>handle_input\<close> reads in its catch block to place the caret. Lines printed on
  standard output are collected in a list.
\<close>

subsection \<open>Data model\<close>

text \<open>
  \<^verbatim>\<open>enum encoding_t\<close>. \<^verbatim>\<open>NUM_ENCODINGS\<close> and \<^verbatim>\<open>INVALID_ENCODING\<close> are not modes a
  session can run in (\<^verbatim>\<open>main\<close> rejects them); the invalid tag only occurs in
  \<^verbatim>\<open>INVALID_VALUE\<close>, a constructor of \<open>encoded_value\<close> below.
\<close>

datatype encoding_t = S8 | S16 | S32 | S64 | U8 | U16 | U32 | U64 | F32 | F64

text \<open>
  \<^verbatim>\<open>struct encoded_value\<close>: the tag and the union member the tag selects, kept as its
  raw bits. Signed members are read with \<open>sint\<close>, unsigned ones with \<open>uint\<close>; a
  float member is its IEEE bit pattern (the code itself reads it so, through the
  \<^verbatim>\<open>u32\<close>/\<^verbatim>\<open>u64\<close> members, in \<^verbatim>\<open>format_hex\<close> and for hex literals).
\<close>

datatype encoded_value =
    VS8 "8 word" | VS16 "16 word" | VS32 "32 word" | VS64 "64 word"
  | VU8 "8 word" | VU16 "16 word" | VU32 "32 word" | VU64 "64 word"
  | VF32 "32 word" | VF64 "64 word"
  | INVALID_VALUE

fun encoding :: "encoded_value \<Rightarrow> encoding_t option" where
  "encoding (VS8 _) = Some S8"
| "encoding (VS16 _) = Some S16"
| "encoding (VS32 _) = Some S32"
| "encoding (VS64 _) = Some S64"
| "encoding (VU8 _) = Some U8"
| "encoding (VU16 _) = Some U16"
| "encoding (VU32 _) = Some U32"
| "encoding (VU64 _) = Some U64"
| "encoding (VF32 _) = Some F32"
| "encoding (VF64 _) = Some F64"
| "encoding INVALID_VALUE = None"

datatype operator_t =
    OPEN_PAREN | NOT | NEGATE | MULTIPLY | DIVIDE | MODULUS | ADD | SUBTRACT
  | LEFT_SHIFT | RIGHT_SHIFT | AND | XOR | OR | CLOSE_PAREN | END_EXPRESSION

datatype arity_t = UNARY | BINARY | SENTINEL

text \<open>\<^verbatim>\<open>operator_table\<close>, in table order, and its three columns.\<close>

definition operator_table :: "operator_t list" where
  "operator_table =
     [OPEN_PAREN, NOT, NEGATE, MULTIPLY, DIVIDE, MODULUS, ADD, SUBTRACT,
      LEFT_SHIFT, RIGHT_SHIFT, AND, XOR, OR, CLOSE_PAREN, END_EXPRESSION]"

fun precedence :: "operator_t \<Rightarrow> int" where
  "precedence OPEN_PAREN = 8"
| "precedence NOT = 7"
| "precedence NEGATE = 7"
| "precedence MULTIPLY = 6"
| "precedence DIVIDE = 6"
| "precedence MODULUS = 6"
| "precedence ADD = 5"
| "precedence SUBTRACT = 5"
| "precedence LEFT_SHIFT = 4"
| "precedence RIGHT_SHIFT = 4"
| "precedence AND = 3"
| "precedence XOR = 2"
| "precedence OR = 1"
| "precedence CLOSE_PAREN = 0"
| "precedence END_EXPRESSION = 0"

fun arity :: "operator_t \<Rightarrow> arity_t" where
  "arity OPEN_PAREN = UNARY"
| "arity NOT = UNARY"
| "arity NEGATE = UNARY"
| "arity CLOSE_PAREN = SENTINEL"
| "arity END_EXPRESSION = SENTINEL"
| "arity _ = BINARY"

text \<open>
  The identifier column as C strings without their terminator: the last entry,
  \<^verbatim>\<open>"\0"\<close>, has \<^verbatim>\<open>strlen\<close> 0.
\<close>

fun identifier_str :: "operator_t \<Rightarrow> string" where
  "identifier_str OPEN_PAREN = ''(''"
| "identifier_str NOT = ''~''"
| "identifier_str NEGATE = ''-''"
| "identifier_str MULTIPLY = ''*''"
| "identifier_str DIVIDE = ''/''"
| "identifier_str MODULUS = ''%''"
| "identifier_str ADD = ''+''"
| "identifier_str SUBTRACT = ''-''"
| "identifier_str LEFT_SHIFT = ''<<''"
| "identifier_str RIGHT_SHIFT = ''>>''"
| "identifier_str AND = ''&''"
| "identifier_str XOR = ''^''"
| "identifier_str OR = ''|''"
| "identifier_str CLOSE_PAREN = '')''"
| "identifier_str END_EXPRESSION = ''''"

text \<open>
  \<^verbatim>\<open>parse_error\<close> and \<^verbatim>\<open>range_error\<close> are the two exceptions of the program.
  \<open>undefined_behaviour\<close> marks an application for which C++ defines no result
  (division or modulus by zero, the quotient \<^verbatim>\<open>INT_MIN / -1\<close> at \<^verbatim>\<open>int\<close> width or
  wider, a shift count that is negative or not below the width of the promoted left
  operand): the model claims no value there. \<open>fuel_exhausted\<close> belongs to the model
  only (see \<open>handle_input\<close> and \<open>handle_input_fuel\<close>).
\<close>

datatype exn = parse_error | range_error | undefined_behaviour | fuel_exhausted

subsection \<open>Characters and C strings\<close>

definition NUL :: char where
  "NUL = CHR 0x00"

text \<open>The character at the start of a C string: \<^verbatim>\<open>*cursor\<close> for the text at the cursor.\<close>

definition c_head :: "string \<Rightarrow> char" where
  "c_head cs = (case cs of [] \<Rightarrow> NUL | c # _ \<Rightarrow> c)"

text \<open>The \<^verbatim>\<open><ctype.h>\<close> predicates in the "C" locale.\<close>

definition isspace :: "char \<Rightarrow> bool" where
  "isspace c = (c = CHR '' '' \<or> (9 \<le> (of_char c :: nat) \<and> (of_char c :: nat) \<le> 13))"

definition isdigit :: "char \<Rightarrow> bool" where
  "isdigit c = (48 \<le> (of_char c :: nat) \<and> (of_char c :: nat) \<le> 57)"

definition isxdigit :: "char \<Rightarrow> bool" where
  "isxdigit c = (isdigit c
     \<or> (97 \<le> (of_char c :: nat) \<and> (of_char c :: nat) \<le> 102)
     \<or> (65 \<le> (of_char c :: nat) \<and> (of_char c :: nat) \<le> 70))"

definition digit_to_int :: "char \<Rightarrow> nat" where
  "digit_to_int c =
     (let n = (of_char c :: nat) in
      if 48 \<le> n \<and> n \<le> 57 then n - 48
      else if 97 \<le> n \<and> n \<le> 102 then n - 97 + 10
      else if 65 \<le> n \<and> n \<le> 70 then n - 65 + 10
      else 0)"

definition skip_whitespace :: "string \<Rightarrow> nat \<Rightarrow> nat" where
  "skip_whitespace s i = i + length (takeWhile isspace (drop i s))"

text \<open>
  \<^verbatim>\<open>strncmp(a, b, n) == 0\<close> on C strings: at most \<open>n\<close> characters are compared, and
  the comparison ends at a common NUL.
\<close>

fun strncmp_eq :: "nat \<Rightarrow> string \<Rightarrow> string \<Rightarrow> bool" where
  "strncmp_eq 0 a b = True"
| "strncmp_eq (Suc n) a b =
     (if c_head a \<noteq> c_head b then False
      else if c_head a = NUL then True
      else strncmp_eq n (tl a) (tl b))"

subsection \<open>Operator lookup\<close>

definition identifier_size :: "operator_t \<Rightarrow> nat" where
  "identifier_size op = max 1 (length (identifier_str op))"

definition operator_matches :: "string \<Rightarrow> nat \<Rightarrow> arity_t \<Rightarrow> operator_t option \<Rightarrow> operator_t \<Rightarrow> bool" where
  "operator_matches s j ar sentinel op =
     ((arity op = ar \<or> Some op = sentinel)
      \<and> strncmp_eq (identifier_size op) (drop j s) (identifier_str op))"

text \<open>
  \<^verbatim>\<open>parse_operator\<close>: the first table entry of the requested arity (or equal to the
  sentinel) whose identifier is at the cursor. The default sentinel \<^verbatim>\<open>INVALID_OP\<close>
  is \<open>None\<close>. The exception leaves the cursor after the skipped whitespace.
\<close>

definition parse_operator :: "string \<Rightarrow> nat \<Rightarrow> arity_t \<Rightarrow> operator_t option \<Rightarrow> (exn + operator_t) \<times> nat" where
  "parse_operator s i ar sentinel =
     (let j = skip_whitespace s i in
      case find (operator_matches s j ar sentinel) operator_table of
        Some op \<Rightarrow> (Inr op, j + identifier_size op)
      | None \<Rightarrow> (Inl parse_error, j))"

subsection \<open>The C library's conversions\<close>

text \<open>
  What a call \<^verbatim>\<open>strtoX(cursor, &cursor, ...)\<close> does: the value returned, the number of
  characters the end pointer moved, and whether the call stored \<^verbatim>\<open>ERANGE\<close> in
  \<^verbatim>\<open>errno\<close>.
\<close>

record 'a conversion =
  conv_value :: 'a
  conv_len :: nat
  conv_erange :: bool

definition INT8_MIN :: int where [simp]: "INT8_MIN = - 128"
definition INT8_MAX :: int where [simp]: "INT8_MAX = 127"
definition INT16_MIN :: int where [simp]: "INT16_MIN = - 32768"
definition INT16_MAX :: int where [simp]: "INT16_MAX = 32767"
definition INT32_MIN :: int where [simp]: "INT32_MIN = - 2147483648"
definition INT32_MAX :: int where [simp]: "INT32_MAX = 2147483647"
definition INT64_MIN :: int where [simp]: "INT64_MIN = - 9223372036854775808"
definition INT64_MAX :: int where [simp]: "INT64_MAX = 9223372036854775807"
definition UINT8_MAX :: int where [simp]: "UINT8_MAX = 255"
definition UINT16_MAX :: int where [simp]: "UINT16_MAX = 65535"
definition UINT32_MAX :: int where [simp]: "UINT32_MAX = 4294967295"
definition UINT64_MAX :: int where [simp]: "UINT64_MAX = 18446744073709551615"

definition decimal_value :: "string \<Rightarrow> int" where
  "decimal_value ds = foldl (\<lambda>a c. 10 * a + int (digit_to_int c)) 0 ds"

text \<open>
  The subject sequence of \<^verbatim>\<open>strtoll\<close>/\<^verbatim>\<open>strtoull\<close> in base 10: leading white space,
  an optional sign, decimal digits. The result is the offset of the first digit,
  whether the sign is \<^verbatim>\<open>-\<close>, and the digits.
\<close>

definition strto_scan :: "string \<Rightarrow> nat \<times> bool \<times> string" where
  "strto_scan str =
     (let ws = length (takeWhile isspace str);
          r = drop ws str;
          sg = (if c_head r = CHR ''-'' \<or> c_head r = CHR ''+'' then 1 else 0)
      in (ws + sg, c_head r = CHR ''-'', takeWhile isdigit (drop sg r)))"

text \<open>
  ISO C \<^verbatim>\<open>strtoll(str, &end, 10)\<close>: no digits, no conversion (the end pointer stays);
  a value outside \<^verbatim>\<open>long long\<close> is clamped and \<^verbatim>\<open>ERANGE\<close> is stored.
\<close>

definition strtoll :: "string \<Rightarrow> int conversion" where
  "strtoll str =
     (case strto_scan str of (off, neg, ds) \<Rightarrow>
        let v = (if neg then - decimal_value ds else decimal_value ds) in
        if ds = [] then \<lparr>conv_value = 0, conv_len = 0, conv_erange = False\<rparr>
        else if v > INT64_MAX then \<lparr>conv_value = INT64_MAX, conv_len = off + length ds, conv_erange = True\<rparr>
        else if v < INT64_MIN then \<lparr>conv_value = INT64_MIN, conv_len = off + length ds, conv_erange = True\<rparr>
        else \<lparr>conv_value = v, conv_len = off + length ds, conv_erange = False\<rparr>)"

text \<open>
  ISO C \<^verbatim>\<open>strtoull(str, &end, 10)\<close>: a magnitude above \<^verbatim>\<open>ULLONG_MAX\<close> is clamped with
  \<^verbatim>\<open>ERANGE\<close>; a minus sign negates the converted value in the unsigned type.
\<close>

definition strtoull :: "string \<Rightarrow> int conversion" where
  "strtoull str =
     (case strto_scan str of (off, neg, ds) \<Rightarrow>
        let n = decimal_value ds in
        if ds = [] then \<lparr>conv_value = 0, conv_len = 0, conv_erange = False\<rparr>
        else if n > UINT64_MAX then \<lparr>conv_value = UINT64_MAX, conv_len = off + length ds, conv_erange = True\<rparr>
        else \<lparr>conv_value = (if neg then (- n) mod 2 ^ 64 else n), conv_len = off + length ds, conv_erange = False\<rparr>)"

text \<open>
  \<^verbatim>\<open>strtof\<close> and \<^verbatim>\<open>strtod\<close> are parameters of the model: the bit pattern of the
  float returned, the characters consumed, and whether \<^verbatim>\<open>ERANGE\<close> was stored.
\<close>

record libc =
  strtof :: "string \<Rightarrow> 32 word conversion"
  strtod :: "string \<Rightarrow> 64 word conversion"

subsection \<open>Literals\<close>

text \<open>
  \<^verbatim>\<open>errno\<close> is modelled by the flag \<open>conv_erange\<close> of the one conversion
  \<^verbatim>\<open>parse_value\<close> makes: the program stores \<^verbatim>\<open>ERANGE\<close> nowhere else and clears it
  whenever it raises \<^verbatim>\<open>range_error\<close>, so it is clear when \<^verbatim>\<open>parse_value\<close> starts
  (no other library call of the program is taken to store \<^verbatim>\<open>ERANGE\<close>).
\<close>

definition parse_int :: "string \<Rightarrow> int \<Rightarrow> int \<Rightarrow> int conversion" where
  "parse_int str min_v max_v =
     (let c = strtoll str in
      c\<lparr>conv_erange := conv_erange c \<or> conv_value c < min_v \<or> conv_value c > max_v\<rparr>)"

definition parse_uint :: "string \<Rightarrow> int \<Rightarrow> int conversion" where
  "parse_uint str max_v =
     (if c_head str = CHR ''-'' \<and> isdigit (c_head (tl str))
      then \<lparr>conv_value = 0, conv_len = 0, conv_erange = True\<rparr>
      else let c = strtoull str in c\<lparr>conv_erange := conv_erange c \<or> conv_value c > max_v\<rparr>)"

text \<open>
  The \<^verbatim>\<open>for\<close> loop of \<^verbatim>\<open>strtox\<close>: \<open>k\<close> is the number of iterations left
  (\<^verbatim>\<open>max_digits - digits\<close>), \<open>cs\<close> the text at the cursor, \<open>n\<close> the characters consumed
  so far. Leaving the loop by its condition stores \<^verbatim>\<open>ERANGE\<close>.
\<close>

fun strtox_loop :: "nat \<Rightarrow> string \<Rightarrow> 64 word \<Rightarrow> nat \<Rightarrow> 64 word conversion" where
  "strtox_loop 0 cs v n = \<lparr>conv_value = 0, conv_len = n, conv_erange = True\<rparr>"
| "strtox_loop (Suc k) cs v n =
     (let v' = v + of_nat (digit_to_int (c_head cs)) in
      if \<not> isxdigit (c_head (tl cs))
      then \<lparr>conv_value = v', conv_len = Suc n, conv_erange = False\<rparr>
      else strtox_loop k (tl cs) (push_bit 4 v') (Suc n))"

definition strtox :: "string \<Rightarrow> nat \<Rightarrow> 64 word conversion" where
  "strtox str max_digits =
     (if c_head str \<noteq> CHR ''x'' then \<lparr>conv_value = 0, conv_len = 0, conv_erange = False\<rparr>
      else if \<not> isxdigit (c_head (tl str)) then \<lparr>conv_value = 0, conv_len = 0, conv_erange = False\<rparr>
      else
        let zs = takeWhile (\<lambda>c. c = CHR ''0'') (tl str);
            r = drop (length zs) (tl str)
        in if \<not> isxdigit (c_head r)
           then \<lparr>conv_value = 0, conv_len = 1 + length zs, conv_erange = False\<rparr>
           else strtox_loop max_digits r 0 (1 + length zs))"

text \<open>The assignment of a conversion's result to a member of the union.\<close>

definition store :: "('a \<Rightarrow> encoded_value) \<Rightarrow> 'a conversion \<Rightarrow> encoded_value conversion" where
  "store member c =
     \<lparr>conv_value = member (conv_value c), conv_len = conv_len c, conv_erange = conv_erange c\<rparr>"

text \<open>
  \<^verbatim>\<open>parse_value\<close>. A range error puts the cursor back to \<^verbatim>\<open>old_cursor\<close>, the start of
  the literal after the white space; a conversion that consumed nothing yields
  \<^verbatim>\<open>INVALID_VALUE\<close>.
\<close>

definition parse_value :: "libc \<Rightarrow> string \<Rightarrow> nat \<Rightarrow> encoding_t \<Rightarrow> (exn + encoded_value) \<times> nat" where
  "parse_value C s i mode =
     (let old_cursor = skip_whitespace s i;
          str = drop old_cursor s;
          c = (if c_head str = CHR ''x'' then
                 (case mode of
                    S8 \<Rightarrow> store (VS8 \<circ> ucast) (strtox str 2)
                  | U8 \<Rightarrow> store (VU8 \<circ> ucast) (strtox str 2)
                  | S16 \<Rightarrow> store (VS16 \<circ> ucast) (strtox str 4)
                  | U16 \<Rightarrow> store (VU16 \<circ> ucast) (strtox str 4)
                  | S32 \<Rightarrow> store (VS32 \<circ> ucast) (strtox str 8)
                  | U32 \<Rightarrow> store (VU32 \<circ> ucast) (strtox str 8)
                  | F32 \<Rightarrow> store (VF32 \<circ> ucast) (strtox str 8)
                  | S64 \<Rightarrow> store VS64 (strtox str 16)
                  | U64 \<Rightarrow> store VU64 (strtox str 16)
                  | F64 \<Rightarrow> store VF64 (strtox str 16))
               else
                 (case mode of
                    S8 \<Rightarrow> store (VS8 \<circ> word_of_int) (parse_int str INT8_MIN INT8_MAX)
                  | S16 \<Rightarrow> store (VS16 \<circ> word_of_int) (parse_int str INT16_MIN INT16_MAX)
                  | S32 \<Rightarrow> store (VS32 \<circ> word_of_int) (parse_int str INT32_MIN INT32_MAX)
                  | S64 \<Rightarrow> store (VS64 \<circ> word_of_int) (parse_int str INT64_MIN INT64_MAX)
                  | U8 \<Rightarrow> store (VU8 \<circ> word_of_int) (parse_uint str UINT8_MAX)
                  | U16 \<Rightarrow> store (VU16 \<circ> word_of_int) (parse_uint str UINT16_MAX)
                  | U32 \<Rightarrow> store (VU32 \<circ> word_of_int) (parse_uint str UINT32_MAX)
                  | U64 \<Rightarrow> store (VU64 \<circ> word_of_int) (parse_uint str UINT64_MAX)
                  | F32 \<Rightarrow> store VF32 (strtof C str)
                  | F64 \<Rightarrow> store VF64 (strtod C str)))
      in if conv_erange c then (Inl range_error, old_cursor)
         else if conv_len c = 0 then (Inr INVALID_VALUE, old_cursor)
         else (Inr (conv_value c), old_cursor + conv_len c))"

subsection \<open>Formatting\<close>

text \<open>
  \<^verbatim>\<open>format_dec\<close> and \<^verbatim>\<open>format_hex\<close> return the text \<^verbatim>\<open>sprintf\<close> writes; the static
  buffers it is written to are not modelled. The \<^verbatim>\<open>%f\<close> conversions of the floats are
  parameters, like the float arithmetic.
\<close>

record fpu =
  f32_neg :: "32 word \<Rightarrow> 32 word"
  f32_add :: "32 word \<Rightarrow> 32 word \<Rightarrow> 32 word"
  f32_sub :: "32 word \<Rightarrow> 32 word \<Rightarrow> 32 word"
  f32_mul :: "32 word \<Rightarrow> 32 word \<Rightarrow> 32 word"
  f32_div :: "32 word \<Rightarrow> 32 word \<Rightarrow> 32 word"
  f32_fmt :: "32 word \<Rightarrow> string"
  f64_neg :: "64 word \<Rightarrow> 64 word"
  f64_add :: "64 word \<Rightarrow> 64 word \<Rightarrow> 64 word"
  f64_sub :: "64 word \<Rightarrow> 64 word \<Rightarrow> 64 word"
  f64_mul :: "64 word \<Rightarrow> 64 word \<Rightarrow> 64 word"
  f64_div :: "64 word \<Rightarrow> 64 word \<Rightarrow> 64 word"
  f64_fmt :: "64 word \<Rightarrow> string"

definition digit_char :: "nat \<Rightarrow> char" where
  "digit_char d = (if d < 10 then char_of (48 + d) else char_of (87 + d))"

fun dec_digits :: "nat \<Rightarrow> string" where
  "dec_digits n = (if n < 10 then [digit_char n] else dec_digits (n div 10) @ [digit_char (n mod 10)])"

definition print_int :: "int \<Rightarrow> string" where
  "print_int v = (if v < 0 then CHR ''-'' # dec_digits (nat (- v)) else dec_digits (nat v))"

primrec hex_digits :: "nat \<Rightarrow> nat \<Rightarrow> string" where
  "hex_digits 0 n = []"
| "hex_digits (Suc k) n = hex_digits k (n div 16) @ [digit_char (n mod 16)]"

fun format_hex :: "encoded_value \<Rightarrow> string" where
  "format_hex (VS8 x) = CHR ''x'' # hex_digits 2 (unat x)"
| "format_hex (VU8 x) = CHR ''x'' # hex_digits 2 (unat x)"
| "format_hex (VS16 x) = CHR ''x'' # hex_digits 4 (unat x)"
| "format_hex (VU16 x) = CHR ''x'' # hex_digits 4 (unat x)"
| "format_hex (VS32 x) = CHR ''x'' # hex_digits 8 (unat x)"
| "format_hex (VU32 x) = CHR ''x'' # hex_digits 8 (unat x)"
| "format_hex (VF32 x) = CHR ''x'' # hex_digits 8 (unat x)"
| "format_hex (VS64 x) = CHR ''x'' # hex_digits 16 (unat x)"
| "format_hex (VU64 x) = CHR ''x'' # hex_digits 16 (unat x)"
| "format_hex (VF64 x) = CHR ''x'' # hex_digits 16 (unat x)"
| "format_hex INVALID_VALUE = []"

fun format_dec :: "fpu \<Rightarrow> encoded_value \<Rightarrow> string" where
  "format_dec F (VS8 x) = print_int (sint x)"
| "format_dec F (VS16 x) = print_int (sint x)"
| "format_dec F (VS32 x) = print_int (sint x)"
| "format_dec F (VS64 x) = print_int (sint x)"
| "format_dec F (VU8 x) = print_int (uint x)"
| "format_dec F (VU16 x) = print_int (uint x)"
| "format_dec F (VU32 x) = print_int (uint x)"
| "format_dec F (VU64 x) = print_int (uint x)"
| "format_dec F (VF32 x) = f32_fmt F x"
| "format_dec F (VF64 x) = f64_fmt F x"
| "format_dec F INVALID_VALUE = []"

subsection \<open>Applying operators\<close>

text \<open>
  The outcome of an \<^verbatim>\<open>evaluate_operator_integer\<close> or \<^verbatim>\<open>evaluate_operator_real\<close> call:
  \<open>Success r\<close> for \<^verbatim>\<open>true\<close> with \<^verbatim>\<open>result = r\<close>, \<open>Failure\<close> for \<^verbatim>\<open>false\<close>, and
  \<open>Undefined\<close> where the C++ expression has no defined value.
\<close>

datatype 'a applied = Success 'a | Failure | Undefined

text \<open>
  The mathematical value of an operand of a signed or an unsigned integer type; the
  integer promotions keep it.
\<close>

definition c_int :: "bool \<Rightarrow> 'a::len word \<Rightarrow> int" where
  "c_int sg x = (if sg then sint x else uint x)"

text \<open>C++ division truncates towards zero; the remainder has the sign of the dividend.\<close>

definition c_div :: "int \<Rightarrow> int \<Rightarrow> int" where
  "c_div a b = sgn a * sgn b * (\<bar>a\<bar> div \<bar>b\<bar>)"

definition c_rem :: "int \<Rightarrow> int \<Rightarrow> int" where
  "c_rem a b = a - b * c_div a b"

definition evaluate_operator_integer_unary :: "operator_t \<Rightarrow> 'a::len word \<Rightarrow> 'a word applied" where
  "evaluate_operator_integer_unary op v =
     (case op of
        NOT \<Rightarrow> Success (not v)
      | NEGATE \<Rightarrow> Success (- v)
      | _ \<Rightarrow> Failure)"

definition evaluate_operator_real_unary :: "('f \<Rightarrow> 'f) \<Rightarrow> operator_t \<Rightarrow> 'f \<Rightarrow> 'f applied" where
  "evaluate_operator_real_unary neg op v =
     (case op of
        NEGATE \<Rightarrow> Success (neg v)
      | _ \<Rightarrow> Failure)"

text \<open>
  The binary template at a type of \<open>LENGTH('a)\<close> bits, signed when \<open>sg\<close>. Operands
  narrower than \<^verbatim>\<open>int\<close> are promoted to \<^verbatim>\<open>int\<close> (32 bits), the operation is done at the
  promoted width \<open>pw\<close> with two's-complement wrap-around, and the assignment to
  \<^verbatim>\<open>result\<close> keeps the low \<open>LENGTH('a)\<close> bits: for \<^verbatim>\<open>+\<close>, \<^verbatim>\<open>-\<close>, \<^verbatim>\<open>*\<close> and the bitwise
  operators that is the operation on the word itself. A quotient that the promoted
  type cannot hold, a zero divisor and a shift count outside \<open>0..<pw\<close> have no
  defined result.
\<close>

definition evaluate_operator_integer_binary :: "bool \<Rightarrow> operator_t \<Rightarrow> 'a::len word \<Rightarrow> 'a word \<Rightarrow> 'a word applied" where
  "evaluate_operator_integer_binary sg op left right =
     (let l = c_int sg left;
          r = c_int sg right;
          pw = max 32 LENGTH('a)
      in case op of
        ADD \<Rightarrow> Success (left + right)
      | SUBTRACT \<Rightarrow> Success (left - right)
      | MULTIPLY \<Rightarrow> Success (left * right)
      | DIVIDE \<Rightarrow>
          if r = 0 \<or> (sg \<and> c_div l r \<ge> 2 ^ (pw - 1)) then Undefined
          else Success (word_of_int (c_div l r))
      | MODULUS \<Rightarrow>
          if r = 0 \<or> (sg \<and> c_div l r \<ge> 2 ^ (pw - 1)) then Undefined
          else Success (word_of_int (c_rem l r))
      | LEFT_SHIFT \<Rightarrow>
          if r < 0 \<or> int pw \<le> r then Undefined
          else Success (push_bit (nat r) left)
      | RIGHT_SHIFT \<Rightarrow>
          if r < 0 \<or> int pw \<le> r then Undefined
          else Success (word_of_int (l div 2 ^ nat r))
      | AND \<Rightarrow> Success (and left right)
      | OR \<Rightarrow> Success (or left right)
      | XOR \<Rightarrow> Success (xor left right)
      | _ \<Rightarrow> Failure)"

definition evaluate_operator_real_binary ::
  "('f \<Rightarrow> 'f \<Rightarrow> 'f) \<Rightarrow> ('f \<Rightarrow> 'f \<Rightarrow> 'f) \<Rightarrow> ('f \<Rightarrow> 'f \<Rightarrow> 'f) \<Rightarrow> ('f \<Rightarrow> 'f \<Rightarrow> 'f)
     \<Rightarrow> operator_t \<Rightarrow> 'f \<Rightarrow> 'f \<Rightarrow> 'f applied" where
  "evaluate_operator_real_binary add sub mul quot op left right =
     (case op of
        ADD \<Rightarrow> Success (add left right)
      | SUBTRACT \<Rightarrow> Success (sub left right)
      | MULTIPLY \<Rightarrow> Success (mul left right)
      | DIVIDE \<Rightarrow> Success (quot left right)
      | _ \<Rightarrow> Failure)"

text \<open>The switch over the encoding in the unary \<^verbatim>\<open>evaluate_operator\<close>.\<close>

fun apply_unary :: "fpu \<Rightarrow> operator_t \<Rightarrow> encoded_value \<Rightarrow> encoded_value applied" where
  "apply_unary F op (VS8 x) = map_applied VS8 (evaluate_operator_integer_unary op x)"
| "apply_unary F op (VS16 x) = map_applied VS16 (evaluate_operator_integer_unary op x)"
| "apply_unary F op (VS32 x) = map_applied VS32 (evaluate_operator_integer_unary op x)"
| "apply_unary F op (VS64 x) = map_applied VS64 (evaluate_operator_integer_unary op x)"
| "apply_unary F op (VU8 x) = map_applied VU8 (evaluate_operator_integer_unary op x)"
| "apply_unary F op (VU16 x) = map_applied VU16 (evaluate_operator_integer_unary op x)"
| "apply_unary F op (VU32 x) = map_applied VU32 (evaluate_operator_integer_unary op x)"
| "apply_unary F op (VU64 x) = map_applied VU64 (evaluate_operator_integer_unary op x)"
| "apply_unary F op (VF32 x) = map_applied VF32 (evaluate_operator_real_unary (f32_neg F) op x)"
| "apply_unary F op (VF64 x) = map_applied VF64 (evaluate_operator_real_unary (f64_neg F) op x)"
| "apply_unary F op INVALID_VALUE = Failure"

text \<open>
  The unary \<^verbatim>\<open>evaluate_operator\<close>: the value or the exception, and the lines it
  prints on standard output.
\<close>

definition evaluate_operator_unary :: "fpu \<Rightarrow> bool \<Rightarrow> operator_t \<Rightarrow> encoded_value \<Rightarrow> (exn + encoded_value) \<times> string list" where
  "evaluate_operator_unary F verbose op v =
     (case apply_unary F op v of
        Success result \<Rightarrow>
          (Inr result,
           if verbose then
             [identifier_str op @ ''('' @ format_dec F v @ '') = '' @ format_dec F result
              @ '' ('' @ identifier_str op @ format_hex v @ '' = '' @ format_hex result @ '')'']
           else [])
      | Failure \<Rightarrow> (Inl parse_error, [])
      | Undefined \<Rightarrow> (Inl undefined_behaviour, []))"

text \<open>
  The switch over the encoding in the binary \<^verbatim>\<open>evaluate_operator\<close>, reached when both
  tags are equal: the right operand is read through the member of the left one's tag.
\<close>

definition apply_binary :: "fpu \<Rightarrow> operator_t \<Rightarrow> encoded_value \<Rightarrow> encoded_value \<Rightarrow> encoded_value applied" where
  "apply_binary F op left right =
     (case left of
        VS8 x \<Rightarrow> (case right of VS8 y \<Rightarrow> map_applied VS8 (evaluate_operator_integer_binary True op x y) | _ \<Rightarrow> Failure)
      | VS16 x \<Rightarrow> (case right of VS16 y \<Rightarrow> map_applied VS16 (evaluate_operator_integer_binary True op x y) | _ \<Rightarrow> Failure)
      | VS32 x \<Rightarrow> (case right of VS32 y \<Rightarrow> map_applied VS32 (evaluate_operator_integer_binary True op x y) | _ \<Rightarrow> Failure)
      | VS64 x \<Rightarrow> (case right of VS64 y \<Rightarrow> map_applied VS64 (evaluate_operator_integer_binary True op x y) | _ \<Rightarrow> Failure)
      | VU8 x \<Rightarrow> (case right of VU8 y \<Rightarrow> map_applied VU8 (evaluate_operator_integer_binary False op x y) | _ \<Rightarrow> Failure)
      | VU16 x \<Rightarrow> (case right of VU16 y \<Rightarrow> map_applied VU16 (evaluate_operator_integer_binary False op x y) | _ \<Rightarrow> Failure)
      | VU32 x \<Rightarrow> (case right of VU32 y \<Rightarrow> map_applied VU32 (evaluate_operator_integer_binary False op x y) | _ \<Rightarrow> Failure)
      | VU64 x \<Rightarrow> (case right of VU64 y \<Rightarrow> map_applied VU64 (evaluate_operator_integer_binary False op x y) | _ \<Rightarrow> Failure)
      | VF32 x \<Rightarrow> (case right of
            VF32 y \<Rightarrow> map_applied VF32
              (evaluate_operator_real_binary (f32_add F) (f32_sub F) (f32_mul F) (f32_div F) op x y)
          | _ \<Rightarrow> Failure)
      | VF64 x \<Rightarrow> (case right of
            VF64 y \<Rightarrow> map_applied VF64
              (evaluate_operator_real_binary (f64_add F) (f64_sub F) (f64_mul F) (f64_div F) op x y)
          | _ \<Rightarrow> Failure)
      | INVALID_VALUE \<Rightarrow> Failure)"

text \<open>
  The binary \<^verbatim>\<open>evaluate_operator\<close>. Operands of different encodings give
  \<^verbatim>\<open>INVALID_VALUE\<close> without an exception (the message goes to standard error, which
  is not modelled).
\<close>

definition evaluate_operator_binary ::
  "fpu \<Rightarrow> bool \<Rightarrow> operator_t \<Rightarrow> encoded_value \<Rightarrow> encoded_value \<Rightarrow> (exn + encoded_value) \<times> string list" where
  "evaluate_operator_binary F verbose op left right =
     (if encoding left \<noteq> encoding right then (Inr INVALID_VALUE, [])
      else case apply_binary F op left right of
        Success result \<Rightarrow>
          (Inr result,
           if verbose then
             [format_dec F left @ '' '' @ identifier_str op @ '' '' @ format_dec F right
              @ '' = '' @ format_dec F result
              @ '' ('' @ format_hex left @ '' '' @ identifier_str op @ '' '' @ format_hex right
              @ '' = '' @ format_hex result @ '')'']
           else [])
      | Failure \<Rightarrow> (Inl parse_error, [])
      | Undefined \<Rightarrow> (Inl undefined_behaviour, []))"

subsection \<open>The parser\<close>

text \<open>
  What an evaluation of one line only reads: the C library and the float unit, the
  global \<^verbatim>\<open>verbose\<close>, the line and the mode.
\<close>

record env =
  env_libc :: libc
  env_fpu :: fpu
  env_verbose :: bool
  env_input :: string
  env_mode :: encoding_t

text \<open>
  \<^verbatim>\<open>compute_expression\<close> and \<^verbatim>\<open>compute_value\<close> call each other; \<open>expression_loop\<close> is
  the \<^verbatim>\<open>while (true)\<close> loop of \<^verbatim>\<open>compute_expression\<close>, entered with the accumulated
  value, the operator just parsed and the cursor after it. The first argument bounds
  the depth of the calls; \<open>handle_input_fuel\<close> shows that the bound \<open>handle_input\<close>
  gives is never reached. Each function returns the value or the exception, the
  cursor, and the lines printed. \<^verbatim>\<open>compute_expression\<close> always returns the
  terminating operator, which the callers that pass no \<^verbatim>\<open>op_out\<close> drop.
\<close>

fun compute_expression ::
    "nat \<Rightarrow> env \<Rightarrow> nat \<Rightarrow> operator_t \<Rightarrow> int
       \<Rightarrow> (exn + encoded_value \<times> operator_t) \<times> nat \<times> string list"
  and expression_loop ::
    "nat \<Rightarrow> env \<Rightarrow> nat \<Rightarrow> operator_t \<Rightarrow> int
       \<Rightarrow> encoded_value \<Rightarrow> operator_t
       \<Rightarrow> (exn + encoded_value \<times> operator_t) \<times> nat \<times> string list"
  and compute_value ::
    "nat \<Rightarrow> env \<Rightarrow> nat
       \<Rightarrow> (exn + encoded_value) \<times> nat \<times> string list"
where
  "compute_expression 0 E i sentinel min_precedence = (Inl fuel_exhausted, i, [])"
| "compute_expression (Suc n) E i sentinel min_precedence =
     (case compute_value n E i of
        (Inl e, j, out) \<Rightarrow> (Inl e, j, out)
      | (Inr v, j, out) \<Rightarrow>
          (case parse_operator (env_input E) j BINARY (Some sentinel) of
             (Inl e, k) \<Rightarrow> (Inl e, k, out)
           | (Inr op, k) \<Rightarrow>
               (case expression_loop n E k sentinel min_precedence v op of
                  (r, k', out') \<Rightarrow> (r, k', out @ out'))))"
| "expression_loop 0 E k sentinel min_precedence v op =
     (if precedence op \<le> min_precedence then (Inr (v, op), k, [])
      else (Inl fuel_exhausted, k, []))"
| "expression_loop (Suc n) E k sentinel min_precedence v op =
     (if precedence op \<le> min_precedence then (Inr (v, op), k, [])
      else
        (case compute_expression n E k sentinel (precedence op) of
           (Inl e, k', out) \<Rightarrow> (Inl e, k', out)
         | (Inr (next_value, next_op), k', out) \<Rightarrow>
             (case evaluate_operator_binary (env_fpu E) (env_verbose E) op v next_value of
                (Inl e, out') \<Rightarrow> (Inl e, k', out @ out')
              | (Inr v', out') \<Rightarrow>
                  (case expression_loop n E k' sentinel min_precedence v' next_op of
                     (r, k'', out'') \<Rightarrow> (r, k'', out @ out' @ out'')))))"
| "compute_value 0 E i = (Inl fuel_exhausted, i, [])"
| "compute_value (Suc n) E i =
     (case parse_value (env_libc E) (env_input E) i (env_mode E) of
        (Inl e, j) \<Rightarrow> (Inl e, j, [])
      | (Inr v, j) \<Rightarrow>
          if encoding v \<noteq> None then (Inr v, j, [])
          else
            (case parse_operator (env_input E) j UNARY None of
               (Inl e, k) \<Rightarrow> (Inl e, k, [])
             | (Inr unary_op, k) \<Rightarrow>
                 if unary_op = OPEN_PAREN then
                   (case compute_expression n E k CLOSE_PAREN 0 of
                      (Inl e, k', out) \<Rightarrow> (Inl e, k', out)
                    | (Inr (v', _), k', out) \<Rightarrow> (Inr v', k', out))
                 else if arity unary_op = UNARY then
                   (case compute_value n E k of
                      (Inl e, k', out) \<Rightarrow> (Inl e, k', out)
                    | (Inr result, k', out) \<Rightarrow>
                        (case evaluate_operator_unary (env_fpu E) (env_verbose E) unary_op result of
                           (r, out') \<Rightarrow> (r, k', out @ out')))
                 else (Inl parse_error, k, [])))"

text \<open>
  \<^verbatim>\<open>handle_input\<close>: the final value and everything printed on standard output, the
  last line being the result in both radices; or the exception and the cursor offset
  at which the caret is drawn, with the lines printed before it.
\<close>

definition handle_input ::
    "libc \<Rightarrow> fpu \<Rightarrow> bool \<Rightarrow> string \<Rightarrow> encoding_t \<Rightarrow> (exn \<times> nat + encoded_value) \<times> string list" where
  "handle_input C F verbose input mode =
     (case compute_expression (2 * length input + 2)
             \<lparr>env_libc = C, env_fpu = F, env_verbose = verbose, env_input = input, env_mode = mode\<rparr>
             0 END_EXPRESSION 0 of
        (Inl e, cursor, out) \<Rightarrow> (Inl (e, cursor), out)
      | (Inr (result, _), cursor, out) \<Rightarrow>
          (Inr result, out @ [format_dec F result @ '' ('' @ format_hex result @ '')'']))"

subsection \<open>Vocabulary of the specification\<close>

text \<open>
  The notions the properties below are stated with: the kind, width and range of an
  encoding, the number a value stands for, reduction modulo \<open>2 ^ w\<close> into the range
  of an encoding, and the number a string of hexadecimal digits denotes.
\<close>

definition is_float :: "encoding_t \<Rightarrow> bool" where
  "is_float e = (e = F32 \<or> e = F64)"

definition is_signed :: "encoding_t \<Rightarrow> bool" where
  "is_signed e = (e = S8 \<or> e = S16 \<or> e = S32 \<or> e = S64)"

definition is_unsigned :: "encoding_t \<Rightarrow> bool" where
  "is_unsigned e = (e = U8 \<or> e = U16 \<or> e = U32 \<or> e = U64)"

fun width :: "encoding_t \<Rightarrow> nat" where
  "width S8 = 8"
| "width U8 = 8"
| "width S16 = 16"
| "width U16 = 16"
| "width S32 = 32"
| "width U32 = 32"
| "width F32 = 32"
| "width S64 = 64"
| "width U64 = 64"
| "width F64 = 64"

definition range_min :: "encoding_t \<Rightarrow> int" where
  "range_min e = (if is_signed e then - (2 ^ (width e - 1)) else 0)"

definition range_max :: "encoding_t \<Rightarrow> int" where
  "range_max e = (if is_signed e then 2 ^ (width e - 1) - 1 else 2 ^ width e - 1)"

definition wrap :: "encoding_t \<Rightarrow> int \<Rightarrow> int" where
  "wrap e x =
     (if is_signed e then (x + 2 ^ (width e - 1)) mod 2 ^ width e - 2 ^ (width e - 1)
      else x mod 2 ^ width e)"

text \<open>
  The number an integer value stands for, as \<^verbatim>\<open>format_dec\<close> prints it; for a float, its
  bit pattern as \<^verbatim>\<open>format_hex\<close> prints it.
\<close>

fun int_value :: "encoded_value \<Rightarrow> int" where
  "int_value (VS8 x) = sint x"
| "int_value (VS16 x) = sint x"
| "int_value (VS32 x) = sint x"
| "int_value (VS64 x) = sint x"
| "int_value (VU8 x) = uint x"
| "int_value (VU16 x) = uint x"
| "int_value (VU32 x) = uint x"
| "int_value (VU64 x) = uint x"
| "int_value (VF32 x) = uint x"
| "int_value (VF64 x) = uint x"
| "int_value INVALID_VALUE = 0"


text \<open>An application yields the number \<open>n\<close> in encoding \<open>e\<close>.\<close>

definition yields :: "exn + encoded_value \<Rightarrow> encoding_t \<Rightarrow> int \<Rightarrow> bool" where
  "yields res e n = (\<exists>v. res = Inr v \<and> encoding v = Some e \<and> int_value v = n)"


text \<open>
  What is known of the operator a \<^verbatim>\<open>compute_expression\<close> call hands back with the
  cursor \<open>k\<close>: it is a binary operator or the sentinel of the call; unless it is the
  end of the input it lies within the line; and the end of the input was matched at a
  NUL, one character before \<open>k\<close>.
\<close>

definition operator_ends_at :: "string \<Rightarrow> operator_t \<Rightarrow> operator_t \<Rightarrow> nat \<Rightarrow> bool" where
  "operator_ends_at s sen op k =
     ((arity op = BINARY \<or> op = sen)
      \<and> (op \<noteq> END_EXPRESSION \<longrightarrow> k \<le> length s)
      \<and> (op = END_EXPRESSION \<longrightarrow> 1 \<le> k \<and> c_head (drop (k - 1) s) = NUL))"

text \<open>
  A C library at a literal too large for the float type, such as \<^verbatim>\<open>1e400\<close>: ISO C
  (7.22.1.3) has \<^verbatim>\<open>strtof\<close> and \<^verbatim>\<open>strtod\<close> consume the literal, return
  \<^verbatim>\<open>HUGE_VALF\<close>/\<^verbatim>\<open>HUGE_VAL\<close> (the bit patterns of +infinity) and store \<^verbatim>\<open>ERANGE\<close>.
\<close>

definition overflowing_libc :: libc where
  "overflowing_libc =
     \<lparr>strtof = (\<lambda>str. \<lparr>conv_value = 0x7F800000, conv_len = length str, conv_erange = True\<rparr>),
      strtod = (\<lambda>str. \<lparr>conv_value = 0x7FF0000000000000, conv_len = length str, conv_erange = True\<rparr>)\<rparr>"

section \<open>Properties\<close>

subsection \<open>Auxiliary facts\<close>

lemma c_head_simps [simp]: "c_head [] = NUL" "c_head (c # cs) = c"
  by (simp_all add: c_head_def)

lemma takeWhile_run:
  assumes "\<forall>c\<in>set ds. P c" "\<not> P (c_head rest)"
  shows "takeWhile P (ds @ rest) = ds"
proof -
  have "takeWhile P rest = []"
    using assms(2) by (cases rest) simp_all
  with assms(1) show ?thesis
    by simp
qed

lemma handle_input_literal_fault:
  "parse_value C s 0 mode = (Inl e, j) \<Longrightarrow> handle_input C F verbose s mode = (Inl (e, j), [])"
  by (simp add: handle_input_def)

subsection \<open>Precedence and associativity\<close>







subsection \<open>Operators on floats\<close>

lemma encoding_F32: "encoding v = Some F32 \<longleftrightarrow> (\<exists>x. v = VF32 x)"
  by (cases v) simp_all

lemma encoding_F64: "encoding v = Some F64 \<longleftrightarrow> (\<exists>x. v = VF64 x)"
  by (cases v) simp_all

lemma float_unary_F32:
  "evaluate_operator_unary F verbose op (VF32 x) =
     (if op = NEGATE then (Inr (VF32 (f32_neg F x)), snd (evaluate_operator_unary F verbose op (VF32 x)))
      else (Inl parse_error, []))"
  by (cases op) (simp_all add: evaluate_operator_unary_def evaluate_operator_real_unary_def)

lemma float_unary_F64:
  "evaluate_operator_unary F verbose op (VF64 x) =
     (if op = NEGATE then (Inr (VF64 (f64_neg F x)), snd (evaluate_operator_unary F verbose op (VF64 x)))
      else (Inl parse_error, []))"
  by (cases op) (simp_all add: evaluate_operator_unary_def evaluate_operator_real_unary_def)

lemma float_binary_F32:
  "fst (evaluate_operator_binary F verbose op (VF32 x) (VF32 y)) =
     (if op = ADD then Inr (VF32 (f32_add F x y))
      else if op = SUBTRACT then Inr (VF32 (f32_sub F x y))
      else if op = MULTIPLY then Inr (VF32 (f32_mul F x y))
      else if op = DIVIDE then Inr (VF32 (f32_div F x y))
      else Inl parse_error)"
  by (cases op) (simp_all add: evaluate_operator_binary_def apply_binary_def evaluate_operator_real_binary_def)

lemma float_binary_F64:
  "fst (evaluate_operator_binary F verbose op (VF64 x) (VF64 y)) =
     (if op = ADD then Inr (VF64 (f64_add F x y))
      else if op = SUBTRACT then Inr (VF64 (f64_sub F x y))
      else if op = MULTIPLY then Inr (VF64 (f64_mul F x y))
      else if op = DIVIDE then Inr (VF64 (f64_div F x y))
      else Inl parse_error)"
  by (cases op) (simp_all add: evaluate_operator_binary_def apply_binary_def evaluate_operator_real_binary_def)

lemma float_lines:
  "handle_input C F verbose ''x3f800000 % x40000000'' F32 = (Inl (parse_error, 22), [])"
  "handle_input C F verbose ''x3ff0000000000000 << x01'' F64 = (Inl (parse_error, 25), [])"
  by code_simp+



text \<open>
  C6. On values of a float encoding the only applications that return a value are
  unary \<open>-\<close> and binary \<open>+\<close>, \<open>-\<close>, \<open>*\<close>, \<open>/\<close>; every other operator, among them
  \<open>~\<close>, \<open>%\<close>, \<open><<\<close>, \<open>>>\<close>, \<open>&\<close>, \<open>^\<close> and \<open>|\<close>, raises the parse error. On a
  line: \<open>x3f800000 % x40000000\<close> under \<open>f32\<close> ends in the parse error.
\<close>

theorem C6_float_operators:
  assumes "is_float e" and "encoding l = Some e" and "encoding r = Some e"
  shows "((\<exists>v. fst (evaluate_operator_unary F verbose op l) = Inr v \<and> encoding v = Some e) \<longleftrightarrow> op = NEGATE)
     \<and> (op \<noteq> NEGATE \<longrightarrow> fst (evaluate_operator_unary F verbose op l) = Inl parse_error)
     \<and> ((\<exists>v. fst (evaluate_operator_binary F verbose op l r) = Inr v \<and> encoding v = Some e)
           \<longleftrightarrow> op \<in> {ADD, SUBTRACT, MULTIPLY, DIVIDE})
     \<and> (op \<notin> {ADD, SUBTRACT, MULTIPLY, DIVIDE} \<longrightarrow> fst (evaluate_operator_binary F verbose op l r) = Inl parse_error)
     \<and> fst (evaluate_operator_unary F verbose NOT l) = Inl parse_error
     \<and> (op \<in> {MODULUS, LEFT_SHIFT, RIGHT_SHIFT, AND, XOR, OR}
           \<longrightarrow> fst (evaluate_operator_binary F verbose op l r) = Inl parse_error)
     \<and> fst (handle_input C F verbose ''x3f800000 % x40000000'' F32) = Inl (parse_error, 22)"
proof -
  from assms consider
    (f32) x y where "e = F32" "l = VF32 x" "r = VF32 y"
  | (f64) x y where "e = F64" "l = VF64 x" "r = VF64 y"
    by (auto simp: is_float_def encoding_F32 encoding_F64)
  then show ?thesis
  proof cases
    case f32
    have u: "fst (evaluate_operator_unary F verbose op (VF32 x)) = (if op = NEGATE then Inr (VF32 (f32_neg F x)) else Inl parse_error)" for op
      by (subst float_unary_F32) simp
    show ?thesis
      unfolding f32 float_binary_F32 u float_lines by auto
  next
    case f64
    have u: "fst (evaluate_operator_unary F verbose op (VF64 x)) = (if op = NEGATE then Inr (VF64 (f64_neg F x)) else Inl parse_error)" for op
      by (subst float_unary_F64) simp
    show ?thesis
      unfolding f64 float_binary_F64 u float_lines by auto
  qed
qed

theorem C6_float_operators_witness:
  "\<forall>F verbose C.
     is_float F32 \<and> encoding (VF32 1) = Some F32 \<and> encoding (VF32 2) = Some F32
     \<and> fst (evaluate_operator_binary F verbose MODULUS (VF32 1) (VF32 2)) = Inl parse_error
     \<and> fst (evaluate_operator_unary F verbose NOT (VF32 1)) = Inl parse_error
     \<and> (\<exists>v. fst (evaluate_operator_binary F verbose ADD (VF32 1) (VF32 2)) = Inr v \<and> encoding v = Some F32)"
proof (intro allI)
  fix F verbose C
  have h: "is_float F32" "encoding (VF32 1) = Some F32" "encoding (VF32 2) = Some F32"
    by (simp_all add: is_float_def)
  show "is_float F32 \<and> encoding (VF32 1) = Some F32 \<and> encoding (VF32 2) = Some F32
     \<and> fst (evaluate_operator_binary F verbose MODULUS (VF32 1) (VF32 2)) = Inl parse_error
     \<and> fst (evaluate_operator_unary F verbose NOT (VF32 1)) = Inl parse_error
     \<and> (\<exists>v. fst (evaluate_operator_binary F verbose ADD (VF32 1) (VF32 2)) = Inr v \<and> encoding v = Some F32)"
    using h C6_float_operators [OF h, of F verbose MODULUS C] C6_float_operators [OF h, of F verbose ADD C]
    by simp
qed

subsection \<open>Integer arithmetic wraps around\<close>

lemma c_int_word_of_int:
  "c_int sg (word_of_int k :: 'a::len word) =
     (if sg then (k + 2 ^ (LENGTH('a) - 1)) mod 2 ^ LENGTH('a) - 2 ^ (LENGTH('a) - 1)
      else k mod 2 ^ LENGTH('a))"
proof (cases sg)
  case True
  have "sint (word_of_int k :: 'a word) = signed_take_bit (LENGTH('a) - 1) k"
    by (simp add: sint_sbintrunc')
  also have "\<dots> = take_bit (Suc (LENGTH('a) - 1)) (k + 2 ^ (LENGTH('a) - 1)) - 2 ^ (LENGTH('a) - 1)"
    by (rule signed_take_bit_eq_take_bit_shift)
  finally show ?thesis using True
    by (simp add: c_int_def take_bit_eq_mod)
next
  case False
  then show ?thesis
    by (simp add: c_int_def uint_word_of_int take_bit_eq_mod)
qed

lemma word_of_c_int [simp]: "word_of_int (c_int sg x) = x"
  by (simp add: c_int_def)

lemma template_add:
  "evaluate_operator_integer_binary sg ADD l r = Success (word_of_int (c_int sg l + c_int sg r))"
  by (simp add: evaluate_operator_integer_binary_def)

lemma template_sub:
  "evaluate_operator_integer_binary sg SUBTRACT l r = Success (word_of_int (c_int sg l - c_int sg r))"
  by (simp add: evaluate_operator_integer_binary_def)

lemma template_mul:
  "evaluate_operator_integer_binary sg MULTIPLY l r = Success (word_of_int (c_int sg l * c_int sg r))"
  by (simp add: evaluate_operator_integer_binary_def)

lemma template_neg:
  "evaluate_operator_integer_unary NEGATE l = Success (word_of_int (- c_int sg l))"
  by (simp add: evaluate_operator_integer_unary_def)

lemma div_ge_self:
  assumes "(0::int) \<le> x" "0 < y" "x \<le> M" "M \<le> x div y" "0 < M"
  shows "x = M \<and> y = 1"
proof -
  have "x div y \<le> x"
    using zdiv_mono2 [of x 1 y] assms(1,2) by simp
  with assms have x: "x = M" by linarith
  have "y = 1"
  proof (rule ccontr)
    assume "y \<noteq> 1"
    with assms(2) have "1 < y" by linarith
    with x assms(5) have "x div y < x" by (simp add: int_div_less_self)
    with assms(4) x show False by linarith
  qed
  with x show ?thesis by simp
qed

lemma c_div_overflow:
  assumes "M \<le> c_div a b" "- M \<le> a" "a < M" "0 < M"
  shows "a = - M \<and> b = - 1"
proof -
  consider "b = 0" | "a = 0" | "0 < a" "0 < b" | "0 < a" "b < 0" | "a < 0" "0 < b" | "a < 0" "b < 0"
    by linarith
  then show ?thesis
  proof cases
    case 3
    then have "c_div a b = a div b" by (simp add: c_div_def)
    with assms 3 div_ge_self [of a b M] show ?thesis by simp
  next
    case 4
    then have "c_div a b = - (a div (- b))" by (simp add: c_div_def)
    moreover have "0 \<le> a div (- b)" using 4 by (simp add: pos_imp_zdiv_nonneg_iff)
    ultimately show ?thesis using assms by linarith
  next
    case 5
    then have "c_div a b = - ((- a) div b)" by (simp add: c_div_def)
    moreover have "0 \<le> (- a) div b" using 5 by (simp add: pos_imp_zdiv_nonneg_iff)
    ultimately show ?thesis using assms by linarith
  next
    case 6
    then have "c_div a b = (- a) div (- b)" by (simp add: c_div_def)
    with assms 6 div_ge_self [of "- a" "- b" M] show ?thesis by simp
  qed (use assms in \<open>simp_all add: c_div_def\<close>)
qed

lemma sint_quotient_fits:
  fixes l r :: "'a::len word"
  assumes "\<not> (32 \<le> LENGTH('a) \<and> sint l = - (2 ^ (LENGTH('a) - 1)) \<and> sint r = - 1)"
  shows "c_div (sint l) (sint r) < 2 ^ (max 32 LENGTH('a) - 1)"
proof (rule ccontr)
  assume "\<not> c_div (sint l) (sint r) < 2 ^ (max 32 LENGTH('a) - 1)"
  then have h: "2 ^ (max 32 LENGTH('a) - 1) \<le> c_div (sint l) (sint r)" by simp
  have rng: "- (2 ^ (LENGTH('a) - 1)) \<le> sint l" "sint l < 2 ^ (LENGTH('a) - 1)"
    using sint_ge [of l] sint_lt [of l] by simp_all
  show False
  proof (cases "32 \<le> LENGTH('a)")
    case True
    then have "max 32 LENGTH('a) = LENGTH('a)" by simp
    with h have "2 ^ (LENGTH('a) - 1) \<le> c_div (sint l) (sint r)" by metis
    from c_div_overflow [OF this rng] show False using assms True by simp
  next
    case False
    then have m: "max 32 LENGTH('a) - 1 = 31" by simp
    have lt: "(2::int) ^ (LENGTH('a) - 1) < 2 ^ 31"
      by (rule power_strict_increasing) (use False in simp_all)
    have "- (2 ^ 31) \<le> sint l" "sint l < 2 ^ 31"
      using rng lt by linarith+
    moreover from h m have "2 ^ 31 \<le> c_div (sint l) (sint r)" by metis
    ultimately have "sint l = - (2 ^ 31)"
      using c_div_overflow [of "2 ^ 31" "sint l" "sint r"] by simp
    with rng(1) lt show False by linarith
  qed
qed

lemma template_div_defined:
  fixes l r :: "'a::len word"
  assumes "c_int sg r \<noteq> 0"
    and "\<not> (sg \<and> 32 \<le> LENGTH('a) \<and> c_int sg l = - (2 ^ (LENGTH('a) - 1)) \<and> c_int sg r = - 1)"
  shows "evaluate_operator_integer_binary sg DIVIDE l r = Success (word_of_int (c_div (c_int sg l) (c_int sg r)))"
    and "evaluate_operator_integer_binary sg MODULUS l r = Success (word_of_int (c_rem (c_int sg l) (c_int sg r)))"
proof -
  have "\<not> (sg \<and> 2 ^ (max 32 LENGTH('a) - 1) \<le> c_div (c_int sg l) (c_int sg r))"
  proof (cases sg)
    case True
    with assms(2) have "\<not> (32 \<le> LENGTH('a) \<and> sint l = - (2 ^ (LENGTH('a) - 1)) \<and> sint r = - 1)"
      by (simp add: c_int_def)
    from sint_quotient_fits [OF this] True show ?thesis
      by (simp add: c_int_def)
  next
    case False
    then show ?thesis by simp
  qed
  then show "evaluate_operator_integer_binary sg DIVIDE l r = Success (word_of_int (c_div (c_int sg l) (c_int sg r)))"
    and "evaluate_operator_integer_binary sg MODULUS l r = Success (word_of_int (c_rem (c_int sg l) (c_int sg r)))"
    using assms(1) by (simp_all add: evaluate_operator_integer_binary_def Let_def)
qed


lemma integer_kind:
  fixes K :: "'a::len word \<Rightarrow> encoded_value"
  assumes K2: "\<And>op x y. apply_binary F op (K x) (K y) = map_applied K (evaluate_operator_integer_binary sg op x y)"
    and K1: "\<And>op x. apply_unary F op (K x) = map_applied K (evaluate_operator_integer_unary op x)"
    and Ke: "\<And>x. encoding (K x) = Some e"
    and Kv: "\<And>x. int_value (K x) = c_int sg x"
    and W: "\<And>k. wrap e k =
      (if sg then (k + 2 ^ (LENGTH('a) - 1)) mod 2 ^ LENGTH('a) - 2 ^ (LENGTH('a) - 1)
       else k mod 2 ^ LENGTH('a))"
    and R: "sg \<and> 32 \<le> LENGTH('a) \<Longrightarrow> e = S32 \<or> e = S64"
    and M: "range_min e = (if sg then - (2 ^ (LENGTH('a) - 1)) else 0)"
  shows "yields (fst (evaluate_operator_binary F verbose ADD (K x) (K y))) e (wrap e (int_value (K x) + int_value (K y)))
     \<and> yields (fst (evaluate_operator_binary F verbose SUBTRACT (K x) (K y))) e (wrap e (int_value (K x) - int_value (K y)))
     \<and> yields (fst (evaluate_operator_binary F verbose MULTIPLY (K x) (K y))) e (wrap e (int_value (K x) * int_value (K y)))
     \<and> yields (fst (evaluate_operator_unary F verbose NEGATE (K x))) e (wrap e (- int_value (K x)))
     \<and> (int_value (K y) \<noteq> 0
          \<and> \<not> ((e = S32 \<or> e = S64) \<and> int_value (K x) = range_min e \<and> int_value (K y) = - 1)
        \<longrightarrow> yields (fst (evaluate_operator_binary F verbose DIVIDE (K x) (K y))) e
              (wrap e (c_div (int_value (K x)) (int_value (K y))))
          \<and> yields (fst (evaluate_operator_binary F verbose MODULUS (K x) (K y))) e
              (wrap e (c_rem (int_value (K x)) (int_value (K y)))))"
proof -
  have b: "yields (fst (evaluate_operator_binary F verbose op (K x) (K y))) e (wrap e k)"
    if "evaluate_operator_integer_binary sg op x y = Success (word_of_int k)" for op k
    using that by (simp add: yields_def evaluate_operator_binary_def K2 Ke Kv W c_int_word_of_int)
  have u: "yields (fst (evaluate_operator_unary F verbose op (K x))) e (wrap e k)"
    if "evaluate_operator_integer_unary op x = Success (word_of_int k)" for op k
    using that by (simp add: yields_def evaluate_operator_unary_def K1 Ke Kv W c_int_word_of_int)
  have d: "yields (fst (evaluate_operator_binary F verbose DIVIDE (K x) (K y))) e
              (wrap e (c_div (int_value (K x)) (int_value (K y))))
          \<and> yields (fst (evaluate_operator_binary F verbose MODULUS (K x) (K y))) e
              (wrap e (c_rem (int_value (K x)) (int_value (K y))))"
    if nz: "int_value (K y) \<noteq> 0"
      and no: "\<not> ((e = S32 \<or> e = S64) \<and> int_value (K x) = range_min e \<and> int_value (K y) = - 1)"
  proof -
    have "\<not> (sg \<and> 32 \<le> LENGTH('a) \<and> c_int sg x = - (2 ^ (LENGTH('a) - 1)) \<and> c_int sg y = - 1)"
      using no R M by (auto simp: Kv)
    from template_div_defined [OF _ this] nz show ?thesis
      by (simp add: Kv b)
  qed
  show ?thesis
    using d by (simp add: Kv b [OF template_add] b [OF template_sub] b [OF template_mul] u [OF template_neg])
qed


lemma integer_encoding_cases:
  assumes "\<not> is_float e" "encoding l = Some e" "encoding r = Some e"
  obtains
    (s8) x y where "e = S8" "l = VS8 x" "r = VS8 y"
  | (s16) x y where "e = S16" "l = VS16 x" "r = VS16 y"
  | (s32) x y where "e = S32" "l = VS32 x" "r = VS32 y"
  | (s64) x y where "e = S64" "l = VS64 x" "r = VS64 y"
  | (u8) x y where "e = U8" "l = VU8 x" "r = VU8 y"
  | (u16) x y where "e = U16" "l = VU16 x" "r = VU16 y"
  | (u32) x y where "e = U32" "l = VU32 x" "r = VU32 y"
  | (u64) x y where "e = U64" "l = VU64 x" "r = VU64 y"
  using assms by (cases l; cases r; simp add: is_float_def)

lemma wraparound_line:
  "handle_input C F True ''x00 - x01'' U8 = (Inr (VU8 255), [''0 - 1 = 255 (x00 - x01 = xff)'', ''255 (xff)''])"
  "handle_input C F False ''x00 - x01'' U8 = (Inr (VU8 255), [''255 (xff)''])"
  by code_simp+

lemma wraparound_values:
  assumes "\<not> is_float e" and "encoding l = Some e" and "encoding r = Some e"
  shows "yields (fst (evaluate_operator_binary F verbose ADD l r)) e (wrap e (int_value l + int_value r))
     \<and> yields (fst (evaluate_operator_binary F verbose SUBTRACT l r)) e (wrap e (int_value l - int_value r))
     \<and> yields (fst (evaluate_operator_binary F verbose MULTIPLY l r)) e (wrap e (int_value l * int_value r))
     \<and> yields (fst (evaluate_operator_unary F verbose NEGATE l)) e (wrap e (- int_value l))
     \<and> (int_value r \<noteq> 0
          \<and> \<not> ((e = S32 \<or> e = S64) \<and> int_value l = range_min e \<and> int_value r = - 1)
        \<longrightarrow> yields (fst (evaluate_operator_binary F verbose DIVIDE l r)) e
              (wrap e (c_div (int_value l) (int_value r)))
          \<and> yields (fst (evaluate_operator_binary F verbose MODULUS l r)) e
              (wrap e (c_rem (int_value l) (int_value r))))"
  using assms
proof (cases rule: integer_encoding_cases)
  case s8
  show ?thesis unfolding s8
    by (rule integer_kind [where sg = True])
       (simp_all add: apply_binary_def c_int_def wrap_def is_signed_def range_min_def)
next
  case s16
  show ?thesis unfolding s16
    by (rule integer_kind [where sg = True])
       (simp_all add: apply_binary_def c_int_def wrap_def is_signed_def range_min_def)
next
  case s32
  show ?thesis unfolding s32
    by (rule integer_kind [where sg = True])
       (simp_all add: apply_binary_def c_int_def wrap_def is_signed_def range_min_def)
next
  case s64
  show ?thesis unfolding s64
    by (rule integer_kind [where sg = True])
       (simp_all add: apply_binary_def c_int_def wrap_def is_signed_def range_min_def)
next
  case u8
  show ?thesis unfolding u8
    by (rule integer_kind [where sg = False])
       (simp_all add: apply_binary_def c_int_def wrap_def is_signed_def range_min_def)
next
  case u16
  show ?thesis unfolding u16
    by (rule integer_kind [where sg = False])
       (simp_all add: apply_binary_def c_int_def wrap_def is_signed_def range_min_def)
next
  case u32
  show ?thesis unfolding u32
    by (rule integer_kind [where sg = False])
       (simp_all add: apply_binary_def c_int_def wrap_def is_signed_def range_min_def)
next
  case u64
  show ?thesis unfolding u64
    by (rule integer_kind [where sg = False])
       (simp_all add: apply_binary_def c_int_def wrap_def is_signed_def range_min_def)
qed

lemma undefined_division_line:
  "handle_input C F verbose ''-2147483648 / -1'' S32 = (Inl (undefined_behaviour, 17), [])"
  "handle_input C F verbose ''1 / 0'' U8 = (Inl (undefined_behaviour, 6), [])"
  by code_simp+

text \<open>
  C3 (as amended). For every integer encoding of width \<open>w\<close> and all operands of it,
  \<open>+\<close>, binary \<open>-\<close>, \<open>*\<close> and unary \<open>-\<close> yield the exact mathematical result
  reduced modulo \<open>2 ^ w\<close> into the range of the encoding; \<open>/\<close> and \<open>%\<close> yield the
  truncated quotient and its remainder, reduced the same way, whenever the divisor is
  not zero and the operands are not the minimum and \<open>-1\<close> of \<open>s32\<close> or \<open>s64\<close>.
  Under \<open>u8\<close> the line \<open>x00 - x01\<close> evaluates to 255, printed as \<open>255 (xff)\<close>.
\<close>

theorem C3_wraparound:
  assumes "\<not> is_float e" and "encoding l = Some e" and "encoding r = Some e"
  shows "yields (fst (evaluate_operator_binary F verbose ADD l r)) e (wrap e (int_value l + int_value r))
     \<and> yields (fst (evaluate_operator_binary F verbose SUBTRACT l r)) e (wrap e (int_value l - int_value r))
     \<and> yields (fst (evaluate_operator_binary F verbose MULTIPLY l r)) e (wrap e (int_value l * int_value r))
     \<and> yields (fst (evaluate_operator_unary F verbose NEGATE l)) e (wrap e (- int_value l))
     \<and> (int_value r \<noteq> 0
          \<and> \<not> ((e = S32 \<or> e = S64) \<and> int_value l = range_min e \<and> int_value r = - 1)
        \<longrightarrow> yields (fst (evaluate_operator_binary F verbose DIVIDE l r)) e
              (wrap e (c_div (int_value l) (int_value r)))
          \<and> yields (fst (evaluate_operator_binary F verbose MODULUS l r)) e
              (wrap e (c_rem (int_value l) (int_value r))))
     \<and> fst (handle_input C F verbose ''x00 - x01'' U8) = Inr (VU8 255)
     \<and> last (snd (handle_input C F verbose ''x00 - x01'' U8)) = ''255 (xff)''"
proof -
  have "fst (handle_input C F verbose ''x00 - x01'' U8) = Inr (VU8 255)
     \<and> last (snd (handle_input C F verbose ''x00 - x01'' U8)) = ''255 (xff)''"
    by (cases verbose) (simp_all add: wraparound_line)
  with wraparound_values [OF assms, of F verbose] show ?thesis
    by blast
qed

theorem C3_wraparound_witness:
  "\<forall>F verbose.
     \<not> is_float S8 \<and> encoding (VS8 (- 128)) = Some S8 \<and> encoding (VS8 (- 1)) = Some S8
     \<and> yields (fst (evaluate_operator_binary F verbose ADD (VS8 (- 128)) (VS8 (- 1)))) S8 127
     \<and> yields (fst (evaluate_operator_binary F verbose MULTIPLY (VS8 (- 128)) (VS8 (- 1)))) S8 (- 128)
     \<and> yields (fst (evaluate_operator_unary F verbose NEGATE (VS8 (- 128)))) S8 (- 128)
     \<and> yields (fst (evaluate_operator_binary F verbose DIVIDE (VS8 (- 128)) (VS8 (- 1)))) S8 (- 128)"
proof (intro allI)
  fix F verbose
  have h: "\<not> is_float S8" "encoding (VS8 (- 128)) = Some S8" "encoding (VS8 (- 1)) = Some S8"
    by (simp_all add: is_float_def)
  have w: "wrap S8 (- 129) = 127" "wrap S8 128 = - 128"
    by (simp_all add: wrap_def is_signed_def)
  have d: "c_div (- 128) (- 1) = 128"
    by (simp add: c_div_def)
  show "\<not> is_float S8 \<and> encoding (VS8 (- 128)) = Some S8 \<and> encoding (VS8 (- 1)) = Some S8
     \<and> yields (fst (evaluate_operator_binary F verbose ADD (VS8 (- 128)) (VS8 (- 1)))) S8 127
     \<and> yields (fst (evaluate_operator_binary F verbose MULTIPLY (VS8 (- 128)) (VS8 (- 1)))) S8 (- 128)
     \<and> yields (fst (evaluate_operator_unary F verbose NEGATE (VS8 (- 128)))) S8 (- 128)
     \<and> yields (fst (evaluate_operator_binary F verbose DIVIDE (VS8 (- 128)) (VS8 (- 1)))) S8 (- 128)"
    using h C3_wraparound [OF h, of F verbose]
    by (simp add: w d)
qed

text \<open>
  C3 as stated fails for division: \<open>-2147483648 / -1\<close> under \<open>s32\<close> has the
  mathematical quotient \<open>2147483648\<close>, which reduced modulo \<open>2 ^ 32\<close> is the minimum
  again, but the C++ division overflows \<^verbatim>\<open>int\<close> and has no defined result; nor has a
  division by zero.
\<close>

theorem C3_counterexample:
  "evaluate_operator_integer_binary True DIVIDE (- 2147483648 :: 32 word) (- 1) = Undefined
   \<and> evaluate_operator_integer_binary False DIVIDE (1 :: 8 word) 0 = Undefined
   \<and> (\<forall>C F verbose. fst (handle_input C F verbose ''-2147483648 / -1'' S32) = Inl (undefined_behaviour, 17))
   \<and> (\<forall>C F verbose. fst (handle_input C F verbose ''1 / 0'' U8) = Inl (undefined_behaviour, 6))"
  by (simp add: evaluate_operator_integer_binary_def c_int_def c_div_def undefined_division_line)

subsection \<open>Literal parsing\<close>

lemma parse_value_unsigned_minus:
  assumes "is_unsigned mode"
    and "drop (skip_whitespace s i) s = CHR ''-'' # d # rest"
    and "isdigit d"
  shows "parse_value C s i mode = (Inl range_error, skip_whitespace s i)"
  using assms
  by (auto simp: is_unsigned_def parse_value_def parse_uint_def store_def Let_def)

lemma unsigned_minus_lines:
  "handle_input C F verbose ''-1'' U8 = (Inl (range_error, 0), [])"
  "handle_input C F verbose ''-0'' U8 = (Inl (range_error, 0), [])"
  "handle_input C F verbose ''7 * -1'' U32 = (Inl (range_error, 4), [])"
  by code_simp+

text \<open>
  C8. Under an unsigned encoding a literal that begins with \<open>-\<close> and a digit is
  rejected whatever the digits are, \<open>-0\<close> included: \<^verbatim>\<open>parse_value\<close> raises the range
  error with the cursor at the \<open>-\<close>. Under \<open>u8\<close> the line \<open>-1\<close> ends in the range
  error at offset 0.
\<close>

theorem C8_unsigned_minus:
  assumes "is_unsigned mode"
    and "drop (skip_whitespace s i) s = CHR ''-'' # d # rest"
    and "isdigit d"
  shows "parse_value C s i mode = (Inl range_error, skip_whitespace s i)
     \<and> (i = 0 \<longrightarrow> handle_input C F verbose s mode = (Inl (range_error, skip_whitespace s 0), []))
     \<and> handle_input C F verbose ''-1'' U8 = (Inl (range_error, 0), [])
     \<and> handle_input C F verbose ''-0'' U8 = (Inl (range_error, 0), [])"
  using parse_value_unsigned_minus [OF assms, of C]
  by (auto simp: unsigned_minus_lines intro: handle_input_literal_fault)

theorem C8_unsigned_minus_witness:
  "\<forall>C. is_unsigned U16 \<and> drop (skip_whitespace ''  -0 '' 0) ''  -0 '' = CHR ''-'' # CHR ''0'' # '' ''
       \<and> isdigit (CHR ''0'')
       \<and> parse_value C ''  -0 '' 0 U16 = (Inl range_error, 2)"
proof
  fix C
  have h: "is_unsigned U16" "drop (skip_whitespace ''  -0 '' 0) ''  -0 '' = CHR ''-'' # CHR ''0'' # '' ''"
    "isdigit (CHR ''0'')"
    by (simp_all add: is_unsigned_def skip_whitespace_def isspace_def isdigit_def)
  have "skip_whitespace ''  -0 '' 0 = 2"
    by (simp add: skip_whitespace_def isspace_def)
  with h C8_unsigned_minus [OF h, of C]
  show "is_unsigned U16 \<and> drop (skip_whitespace ''  -0 '' 0) ''  -0 '' = CHR ''-'' # CHR ''0'' # '' ''
       \<and> isdigit (CHR ''0'')
       \<and> parse_value C ''  -0 '' 0 U16 = (Inl range_error, 2)"
    by simp
qed

lemma parse_value_float:
  assumes "c_head (drop (skip_whitespace s i) s) \<noteq> CHR ''x''"
  shows "parse_value C s i F32 =
           (let j = skip_whitespace s i; c = strtof C (drop j s) in
            if conv_erange c then (Inl range_error, j)
            else if conv_len c = 0 then (Inr INVALID_VALUE, j)
            else (Inr (VF32 (conv_value c)), j + conv_len c))"
    and "parse_value C s i F64 =
           (let j = skip_whitespace s i; c = strtod C (drop j s) in
            if conv_erange c then (Inl range_error, j)
            else if conv_len c = 0 then (Inr INVALID_VALUE, j)
            else (Inr (VF64 (conv_value c)), j + conv_len c))"
  using assms by (simp_all add: parse_value_def store_def Let_def)

text \<open>
  C5 (as amended). Under a float encoding a literal that does not start with \<open>x\<close>
  is converted by \<^verbatim>\<open>strtof\<close> or \<^verbatim>\<open>strtod\<close>, and the program makes no range check of
  its own. The test of \<^verbatim>\<open>errno\<close> that follows every conversion still applies: the
  literal is accepted, with the converted value, when the conversion stores no
  \<^verbatim>\<open>ERANGE\<close>, and the range error is raised at the start of the literal when it
  does.
\<close>

theorem C5_float_literal:
  assumes "is_float mode"
    and "j = skip_whitespace s i"
    and "c_head (drop j s) \<noteq> CHR ''x''"
  shows "(mode = F32 \<and> conv_erange (strtof C (drop j s)) \<longrightarrow> parse_value C s i mode = (Inl range_error, j))
     \<and> (mode = F64 \<and> conv_erange (strtod C (drop j s)) \<longrightarrow> parse_value C s i mode = (Inl range_error, j))
     \<and> (mode = F32 \<and> \<not> conv_erange (strtof C (drop j s)) \<and> 0 < conv_len (strtof C (drop j s))
          \<longrightarrow> parse_value C s i mode
              = (Inr (VF32 (conv_value (strtof C (drop j s)))), j + conv_len (strtof C (drop j s))))
     \<and> (mode = F64 \<and> \<not> conv_erange (strtod C (drop j s)) \<and> 0 < conv_len (strtod C (drop j s))
          \<longrightarrow> parse_value C s i mode
              = (Inr (VF64 (conv_value (strtod C (drop j s)))), j + conv_len (strtod C (drop j s))))"
  using assms parse_value_float [of s i C]
  by (auto simp: Let_def)

theorem C5_float_literal_witness:
  "is_float F64 \<and> 1 = skip_whitespace '' 1e400'' 0 \<and> c_head (drop 1 '' 1e400'') \<noteq> CHR ''x''
   \<and> conv_erange (strtod overflowing_libc (drop 1 '' 1e400''))
   \<and> parse_value overflowing_libc '' 1e400'' 0 F64 = (Inl range_error, 1)
   \<and> parse_value
        (overflowing_libc\<lparr>strtod := \<lambda>str. \<lparr>conv_value = 0x3FF8000000000000, conv_len = 3, conv_erange = False\<rparr>\<rparr>)
        '' 1.5'' 0 F64
      = (Inr (VF64 0x3FF8000000000000), 4)"
proof -
  have h: "is_float F64" "1 = skip_whitespace '' 1e400'' 0" "c_head (drop 1 '' 1e400'') \<noteq> CHR ''x''"
    "1 = skip_whitespace '' 1.5'' 0" "c_head (drop 1 '' 1.5'') \<noteq> CHR ''x''"
    by (simp_all add: is_float_def skip_whitespace_def isspace_def c_head_def)
  have e: "conv_erange (strtod overflowing_libc (drop 1 '' 1e400''))"
    by (simp add: overflowing_libc_def)
  show ?thesis
    using h(1-3) e C5_float_literal [OF h(1-3), of overflowing_libc]
      C5_float_literal [OF h(1) h(4,5),
        of "overflowing_libc\<lparr>strtod := \<lambda>str. \<lparr>conv_value = 0x3FF8000000000000, conv_len = 3, conv_erange = False\<rparr>\<rparr>"]
    by simp
qed

lemma overflow_line:
  "handle_input overflowing_libc F verbose ''1e400'' F64 = (Inl (range_error, 0), [])"
  by code_simp

text \<open>
  C5 as stated fails: at the literal \<open>1e400\<close> the C library returns infinity and
  stores \<^verbatim>\<open>ERANGE\<close>, and \<^verbatim>\<open>parse_value\<close> raises the range error instead of
  accepting the infinity.
\<close>

theorem C5_counterexample:
  "parse_value overflowing_libc ''1e400'' 0 F64 = (Inl range_error, 0)
   \<and> parse_value overflowing_libc ''1e400'' 0 F32 = (Inl range_error, 0)
   \<and> (\<forall>F verbose. handle_input overflowing_libc F verbose ''1e400'' F64 = (Inl (range_error, 0), []))"
  by (simp add: overflow_line) code_simp

lemma isdigit_not_sign: "isdigit c \<Longrightarrow> c \<noteq> CHR ''-'' \<and> c \<noteq> CHR ''+'' \<and> c \<noteq> CHR ''x'' \<and> \<not> isspace c"
  by (auto simp: isdigit_def isspace_def)

lemma sign_not_space: "\<not> isspace (CHR ''-'')" "\<not> isspace (CHR ''+'')" "\<not> isdigit NUL"
  by (simp_all add: isspace_def isdigit_def NUL_def)

lemma strto_scan_literal:
  assumes "sg = [] \<or> sg = ''+'' \<or> sg = ''-''"
    and "ds \<noteq> []" and "\<forall>c\<in>set ds. isdigit c" and "\<not> isdigit (c_head rest)"
  shows "strto_scan (sg @ ds @ rest) = (length sg, sg = ''-'', ds)"
proof -
  obtain d ds' where ds: "ds = d # ds'"
    using assms(2) by (cases ds) auto
  with assms(3) have d: "isdigit d" by simp
  note nd = isdigit_not_sign [OF d]
  have run: "takeWhile isdigit (ds @ rest) = ds"
    by (rule takeWhile_run [OF assms(3,4)])
  from assms(1) show ?thesis
  proof (elim disjE)
    assume "sg = []"
    then show ?thesis using nd run by (simp add: strto_scan_def ds)
  next
    assume "sg = ''+''"
    then show ?thesis using run by (simp add: strto_scan_def sign_not_space)
  next
    assume "sg = ''-''"
    then show ?thesis using run by (simp add: strto_scan_def sign_not_space)
  qed
qed

lemma literal_head:
  assumes "sg = [] \<or> sg = ''+'' \<or> sg = ''-''"
    and "ds \<noteq> []" and "\<forall>c\<in>set ds. isdigit c"
  shows "c_head (sg @ ds @ rest) \<noteq> CHR ''x''"
    and "c_head (sg @ ds @ rest) = CHR ''-'' \<longleftrightarrow> sg = ''-''"
    and "sg = ''-'' \<Longrightarrow> isdigit (c_head (tl (sg @ ds @ rest)))"
proof -
  obtain d ds' where ds: "ds = d # ds'"
    using assms(2) by (cases ds) auto
  with assms(3) have d: "isdigit d" by simp
  note nd = isdigit_not_sign [OF d]
  show "c_head (sg @ ds @ rest) \<noteq> CHR ''x''"
    using assms(1) nd by (auto simp: ds)
  show "c_head (sg @ ds @ rest) = CHR ''-'' \<longleftrightarrow> sg = ''-''"
    using assms(1) nd by (auto simp: ds)
  show "sg = ''-'' \<Longrightarrow> isdigit (c_head (tl (sg @ ds @ rest)))"
    using d by (simp add: ds)
qed

lemma decimal_value_nonneg: "0 \<le> decimal_value ds"
proof -
  have "0 \<le> a \<Longrightarrow> 0 \<le> foldl (\<lambda>a c. 10 * a + int (digit_to_int c)) a ds" for a
    by (induction ds arbitrary: a) simp_all
  then show ?thesis by (simp add: decimal_value_def)
qed

lemma parse_int_out_of_range:
  assumes "sg = [] \<or> sg = ''+'' \<or> sg = ''-''"
    and "ds \<noteq> []" and "\<forall>c\<in>set ds. isdigit c" and "\<not> isdigit (c_head rest)"
    and "v = (if sg = ''-'' then - decimal_value ds else decimal_value ds)"
    and "v < lo \<or> hi < v" and "INT64_MIN \<le> lo" and "hi \<le> INT64_MAX"
  shows "conv_erange (parse_int (sg @ ds @ rest) lo hi)"
  using assms(2,5-)
  by (auto simp: parse_int_def strtoll_def strto_scan_literal [OF assms(1-4)] Let_def)

lemma parse_uint_out_of_range:
  assumes "sg = [] \<or> sg = ''+'' \<or> sg = ''-''"
    and "ds \<noteq> []" and "\<forall>c\<in>set ds. isdigit c" and "\<not> isdigit (c_head rest)"
    and "v = (if sg = ''-'' then - decimal_value ds else decimal_value ds)"
    and "v < 0 \<or> hi < v" and "hi \<le> UINT64_MAX"
  shows "conv_erange (parse_uint (sg @ ds @ rest) hi)"
proof (cases "sg = ''-''")
  case True
  with literal_head(3) [OF assms(1-3)] show ?thesis
    by (simp add: parse_uint_def)
next
  case False
  with assms(5,6) decimal_value_nonneg [of ds] have "hi < decimal_value ds" "v = decimal_value ds"
    by auto
  with False assms(2,7) literal_head(2) [OF assms(1-3), of rest] show ?thesis
    by (auto simp: parse_uint_def strtoull_def strto_scan_literal [OF assms(1-4)] Let_def)
qed

lemma parse_value_out_of_range:
  assumes "\<not> is_float mode"
    and "j = skip_whitespace s i"
    and "drop j s = sg @ ds @ rest"
    and "sg = [] \<or> sg = ''+'' \<or> sg = ''-''"
    and "ds \<noteq> []" and "\<forall>c\<in>set ds. isdigit c" and "\<not> isdigit (c_head rest)"
    and "v = (if sg = ''-'' then - decimal_value ds else decimal_value ds)"
    and "v < range_min mode \<or> range_max mode < v"
  shows "parse_value C s i mode = (Inl range_error, j)"
proof -
  note lit = assms(4-7)
  have x: "c_head (sg @ ds @ rest) \<noteq> CHR ''x''"
    by (rule literal_head(1) [OF assms(4-6)])
  note pi = parse_int_out_of_range [OF lit assms(8)]
  note pu = parse_uint_out_of_range [OF lit assms(8)]
  show ?thesis
  proof (cases mode)
    case S8
    with assms(9) have "conv_erange (parse_int (sg @ ds @ rest) INT8_MIN INT8_MAX)"
      by (intro pi) (simp_all add: range_min_def range_max_def is_signed_def)
    with S8 x show ?thesis
      by (simp add: parse_value_def assms(2) [symmetric] assms(3) store_def)
  next
    case S16
    with assms(9) have "conv_erange (parse_int (sg @ ds @ rest) INT16_MIN INT16_MAX)"
      by (intro pi) (simp_all add: range_min_def range_max_def is_signed_def)
    with S16 x show ?thesis
      by (simp add: parse_value_def assms(2) [symmetric] assms(3) store_def)
  next
    case S32
    with assms(9) have "conv_erange (parse_int (sg @ ds @ rest) INT32_MIN INT32_MAX)"
      by (intro pi) (simp_all add: range_min_def range_max_def is_signed_def)
    with S32 x show ?thesis
      by (simp add: parse_value_def assms(2) [symmetric] assms(3) store_def)
  next
    case S64
    with assms(9) have "conv_erange (parse_int (sg @ ds @ rest) INT64_MIN INT64_MAX)"
      by (intro pi) (simp_all add: range_min_def range_max_def is_signed_def)
    with S64 x show ?thesis
      by (simp add: parse_value_def assms(2) [symmetric] assms(3) store_def)
  next
    case U8
    with assms(9) have "conv_erange (parse_uint (sg @ ds @ rest) UINT8_MAX)"
      by (intro pu) (simp_all add: range_min_def range_max_def is_signed_def)
    with U8 x show ?thesis
      by (simp add: parse_value_def assms(2) [symmetric] assms(3) store_def)
  next
    case U16
    with assms(9) have "conv_erange (parse_uint (sg @ ds @ rest) UINT16_MAX)"
      by (intro pu) (simp_all add: range_min_def range_max_def is_signed_def)
    with U16 x show ?thesis
      by (simp add: parse_value_def assms(2) [symmetric] assms(3) store_def)
  next
    case U32
    with assms(9) have "conv_erange (parse_uint (sg @ ds @ rest) UINT32_MAX)"
      by (intro pu) (simp_all add: range_min_def range_max_def is_signed_def)
    with U32 x show ?thesis
      by (simp add: parse_value_def assms(2) [symmetric] assms(3) store_def)
  next
    case U64
    with assms(9) have "conv_erange (parse_uint (sg @ ds @ rest) UINT64_MAX)"
      by (intro pu) (simp_all add: range_min_def range_max_def is_signed_def)
    with U64 x show ?thesis
      by (simp add: parse_value_def assms(2) [symmetric] assms(3) store_def)
  next
    case F32
    with assms(1) show ?thesis by (simp add: is_float_def)
  next
    case F64
    with assms(1) show ?thesis by (simp add: is_float_def)
  qed
qed


lemma out_of_range_lines:
  "handle_input C F verbose ''128'' S8 = (Inl (range_error, 0), [])"
  "handle_input C F verbose ''   128'' S8 = (Inl (range_error, 3), [])"
  "handle_input C F verbose ''1 + 128'' S8 = (Inl (range_error, 4), [])"
  by code_simp+

text \<open>
  C4. Under an integer encoding a decimal literal (an optional sign and digits)
  whose value is outside the range of the encoding raises the range error, and the
  cursor reported with it is \<open>j\<close>, the start of the literal after the white space,
  not its end. Under \<open>s8\<close> the literal \<open>128\<close> is rejected at the offset of its
  \<open>1\<close>: 0 in \<open>128\<close>, 3 after three blanks, 4 in \<open>1 + 128\<close>.
\<close>

theorem C4_decimal_range:
  assumes "\<not> is_float mode"
    and "j = skip_whitespace s i"
    and "drop j s = sg @ ds @ rest"
    and "sg = [] \<or> sg = ''+'' \<or> sg = ''-''"
    and "ds \<noteq> []" and "\<forall>c\<in>set ds. isdigit c" and "\<not> isdigit (c_head rest)"
    and "v = (if sg = ''-'' then - decimal_value ds else decimal_value ds)"
    and "v < range_min mode \<or> range_max mode < v"
  shows "parse_value C s i mode = (Inl range_error, j)
     \<and> (i = 0 \<longrightarrow> handle_input C F verbose s mode = (Inl (range_error, j), []))
     \<and> handle_input C F verbose ''128'' S8 = (Inl (range_error, 0), [])
     \<and> handle_input C F verbose ''   128'' S8 = (Inl (range_error, 3), [])
     \<and> handle_input C F verbose ''1 + 128'' S8 = (Inl (range_error, 4), [])"
  using parse_value_out_of_range [OF assms, of C]
  by (auto simp: out_of_range_lines intro: handle_input_literal_fault)

theorem C4_decimal_range_witness:
  "\<forall>C. \<not> is_float U16 \<and> 2 = skip_whitespace ''  +65536*2'' 0
     \<and> drop 2 ''  +65536*2'' = ''+'' @ ''65536'' @ ''*2''
     \<and> list_all isdigit ''65536'' \<and> \<not> isdigit (c_head ''*2'')
     \<and> decimal_value ''65536'' = 65536 \<and> range_max U16 < 65536
     \<and> parse_value C ''  +65536*2'' 0 U16 = (Inl range_error, 2)"
proof
  fix C
  have h: "\<not> is_float U16" "2 = skip_whitespace ''  +65536*2'' 0"
    "drop 2 ''  +65536*2'' = ''+'' @ ''65536'' @ ''*2''"
    "''+'' = [] \<or> ''+'' = ''+'' \<or> ''+'' = ''-''" "''65536'' \<noteq> []"
    "\<forall>c\<in>set ''65536''. isdigit c" "\<not> isdigit (c_head ''*2'')"
    by (simp_all add: is_float_def skip_whitespace_def isspace_def isdigit_def)
  have v: "decimal_value ''65536'' = 65536"
    by (simp add: decimal_value_def digit_to_int_def)
  then have v': "65536 = (if ''+'' = ''-'' then - decimal_value ''65536'' else decimal_value ''65536'')"
    by simp
  have r: "65536 < range_min U16 \<or> range_max U16 < 65536"
    by (simp add: range_max_def is_signed_def)
  show "\<not> is_float U16 \<and> 2 = skip_whitespace ''  +65536*2'' 0
     \<and> drop 2 ''  +65536*2'' = ''+'' @ ''65536'' @ ''*2''
     \<and> list_all isdigit ''65536'' \<and> \<not> isdigit (c_head ''*2'')
     \<and> decimal_value ''65536'' = 65536 \<and> range_max U16 < 65536
     \<and> parse_value C ''  +65536*2'' 0 U16 = (Inl range_error, 2)"
    using h(1-3,6,7) v C4_decimal_range [OF h v' r, of C]
    by (simp add: range_max_def is_signed_def list_all_iff)
qed

















subsection \<open>Cursor and termination\<close>

lemma skip_whitespace_le: "i \<le> skip_whitespace s i"
  by (simp add: skip_whitespace_def)

lemma strncmp_eq_prefix:
  "NUL \<notin> set b \<Longrightarrow> strncmp_eq (length b) a b \<Longrightarrow> take (length b) a = b \<and> length b \<le> length a"
proof (induction b arbitrary: a)
  case Nil
  show ?case by simp
next
  case (Cons c b)
  then show ?case
    by (cases a) (auto split: if_splits)
qed

lemma identifier_no_NUL: "NUL \<notin> set (identifier_str op)"
  by (cases op) (simp_all add: NUL_def)

lemma identifier_size_eq: "op \<noteq> END_EXPRESSION \<Longrightarrow> identifier_size op = length (identifier_str op)"
  by (cases op) (simp_all add: identifier_size_def)

lemma identifier_size_pos: "0 < identifier_size op"
  by (simp add: identifier_size_def)

lemma parse_operator_result:
  assumes "parse_operator s i ar sen = (Inr op, k)"
  shows "arity op = ar \<or> Some op = sen"
    and "i < k"
    and "op \<noteq> END_EXPRESSION \<Longrightarrow> k \<le> length s"
    and "op = END_EXPRESSION \<Longrightarrow> 1 \<le> k \<and> c_head (drop (k - 1) s) = NUL"
proof -
  let ?j = "skip_whitespace s i"
  from assms have f: "find (operator_matches s ?j ar sen) operator_table = Some op"
    and k: "k = ?j + identifier_size op"
    by (auto simp: parse_operator_def Let_def split: option.splits)
  from f have m: "operator_matches s ?j ar sen op"
    by (auto simp: find_Some_iff)
  then show "arity op = ar \<or> Some op = sen"
    by (simp add: operator_matches_def)
  show "i < k"
    using k skip_whitespace_le [of i s] identifier_size_pos [of op] by linarith
  from m have c: "strncmp_eq (identifier_size op) (drop ?j s) (identifier_str op)"
    by (simp add: operator_matches_def)
  show "k \<le> length s" if "op \<noteq> END_EXPRESSION"
  proof -
    from c that have "strncmp_eq (length (identifier_str op)) (drop ?j s) (identifier_str op)"
      by (simp add: identifier_size_eq)
    from strncmp_eq_prefix [OF identifier_no_NUL this]
    have "length (identifier_str op) \<le> length s - ?j" by simp
    moreover have "0 < length (identifier_str op)"
      using that identifier_size_eq [of op] identifier_size_pos [of op] by simp
    ultimately show ?thesis
      using k identifier_size_eq [OF that] by linarith
  qed
  show "1 \<le> k \<and> c_head (drop (k - 1) s) = NUL" if "op = END_EXPRESSION"
    using c k that by (simp add: identifier_size_def split: if_splits)
qed

lemma parse_value_cursor:
  "parse_value C s i mode = (r, j) \<Longrightarrow> i \<le> j"
  using skip_whitespace_le [of i s]
  by (auto simp: parse_value_def Let_def split: if_splits)

lemma binary_precedence: "arity op = BINARY \<Longrightarrow> 0 < precedence op"
  by (cases op) simp_all


lemma parse_operator_ends_at:
  assumes "parse_operator s i BINARY (Some sen) = (Inr op, k)"
  shows "operator_ends_at s sen op k"
  using parse_operator_result [OF assms] by (auto simp: operator_ends_at_def)

lemma parser_cursor:
  "(\<forall>i sen minp v op k out.
      compute_expression n E i sen minp = (Inr (v, op), k, out)
      \<longrightarrow> i < k \<and> operator_ends_at (env_input E) sen op k \<and> precedence op \<le> minp)
   \<and> (\<forall>k0 sen minp v0 op0 v op k out.
      expression_loop n E k0 sen minp v0 op0 = (Inr (v, op), k, out)
      \<longrightarrow> operator_ends_at (env_input E) sen op0 k0
      \<longrightarrow> k0 \<le> k \<and> operator_ends_at (env_input E) sen op k \<and> precedence op \<le> minp)
   \<and> (\<forall>i v j out. compute_value n E i = (Inr v, j, out) \<longrightarrow> i \<le> j)"
proof (induction n)
  case 0
  show ?case by (simp add: operator_ends_at_def)
next
  case (Suc n)
  then have ce: "\<And>i sen minp v op k out. compute_expression n E i sen minp = (Inr (v, op), k, out)
      \<Longrightarrow> i < k \<and> operator_ends_at (env_input E) sen op k \<and> precedence op \<le> minp"
    and lp: "\<And>k0 sen minp v0 op0 v op k out.
      expression_loop n E k0 sen minp v0 op0 = (Inr (v, op), k, out)
      \<Longrightarrow> operator_ends_at (env_input E) sen op0 k0
      \<Longrightarrow> k0 \<le> k \<and> operator_ends_at (env_input E) sen op k \<and> precedence op \<le> minp"
    and cv: "\<And>i v j out. compute_value n E i = (Inr v, j, out) \<Longrightarrow> i \<le> j"
    by blast+
  have 1: "i < k \<and> operator_ends_at (env_input E) sen op k \<and> precedence op \<le> minp"
    if "compute_expression (Suc n) E i sen minp = (Inr (v, op), k, out)" for i sen minp v op k out
  proof -
    from that obtain v1 j o1 op1 k1 o2 where
      a: "compute_value n E i = (Inr v1, j, o1)"
      and b: "parse_operator (env_input E) j BINARY (Some sen) = (Inr op1, k1)"
      and c: "expression_loop n E k1 sen minp v1 op1 = (Inr (v, op), k, o2)"
      by (auto split: prod.splits sum.splits)
    from cv [OF a] parse_operator_result(2) [OF b] lp [OF c parse_operator_ends_at [OF b]]
    show ?thesis by simp
  qed
  have 2: "k0 \<le> k \<and> operator_ends_at (env_input E) sen op k \<and> precedence op \<le> minp"
    if r: "expression_loop (Suc n) E k0 sen minp v0 op0 = (Inr (v, op), k, out)"
      and i: "operator_ends_at (env_input E) sen op0 k0" for k0 sen minp v0 op0 v op k out
  proof (cases "precedence op0 \<le> minp")
    case True
    with r i show ?thesis by simp
  next
    case False
    with r obtain nv nop k' o1 v' o3 where
      a: "compute_expression n E k0 sen (precedence op0) = (Inr (nv, nop), k', o1)"
      and c: "expression_loop n E k' sen minp v' nop = (Inr (v, op), k, o3)"
      by (auto split: prod.splits sum.splits)
    from ce [OF a] have "k0 < k'" "operator_ends_at (env_input E) sen nop k'" by simp_all
    with lp [OF c] show ?thesis by simp
  qed
  have 3: "i \<le> j" if r: "compute_value (Suc n) E i = (Inr v, j, out)" for i v j out
  proof -
    obtain rv j1 where pv: "parse_value (env_libc E) (env_input E) i (env_mode E) = (rv, j1)"
      by (cases "parse_value (env_libc E) (env_input E) i (env_mode E)")
    note le = parse_value_cursor [OF pv]
    from r pv obtain v1 where rv: "rv = Inr v1"
      by (cases rv) auto
    show ?thesis
    proof (cases "encoding v1 \<noteq> None")
      case True
      with r pv rv le show ?thesis by simp
    next
      case False
      with r pv rv obtain uop k where po: "parse_operator (env_input E) j1 UNARY None = (Inr uop, k)"
        by (auto split: prod.splits sum.splits)
      note lt = parse_operator_result(2) [OF po]
      show ?thesis
      proof (cases "uop = OPEN_PAREN")
        case True
        with r pv rv False po obtain op' where "compute_expression n E k CLOSE_PAREN 0 = (Inr (v, op'), j, out)"
          by (auto split: prod.splits sum.splits)
        from ce [OF this] le lt show ?thesis by simp
      next
        case nparen: False
        with r pv rv False po obtain res o1 where "compute_value n E k = (Inr res, j, o1)"
          by (auto split: prod.splits sum.splits if_splits)
        from cv [OF this] le lt show ?thesis by simp
      qed
    qed
  qed
  from 1 2 3 show ?case by blast
qed


lemma no_fuel_faults:
  "parse_operator s i ar sen \<noteq> (Inl fuel_exhausted, k)"
  "parse_value C s i mode \<noteq> (Inl fuel_exhausted, k)"
  "evaluate_operator_unary F b op v \<noteq> (Inl fuel_exhausted, out)"
  "evaluate_operator_binary F b op l r \<noteq> (Inl fuel_exhausted, out)"
  by (auto simp: parse_operator_def parse_value_def evaluate_operator_unary_def
      evaluate_operator_binary_def Let_def split: option.splits applied.splits if_splits)



lemma unmatched_precedence:
  assumes "operator_ends_at s sen op k" "minp < precedence op" "0 \<le> minp" "precedence sen \<le> 0"
  shows "k \<le> length s"
proof -
  from assms(2-4) have "op \<noteq> sen" by auto
  with assms(1) have "arity op = BINARY" by (simp add: operator_ends_at_def)
  then have "op \<noteq> END_EXPRESSION" by auto
  with assms(1) show ?thesis by (simp add: operator_ends_at_def)
qed

lemma fuel_step_expression:
  assumes lp: "\<And>k sen minp v op. (minp < precedence op \<longrightarrow> 2 * (length (env_input E) - k) + 3 \<le> n)
      \<Longrightarrow> 0 \<le> minp \<Longrightarrow> precedence sen \<le> 0 \<Longrightarrow> operator_ends_at (env_input E) sen op k
      \<Longrightarrow> fst (expression_loop n E k sen minp v op) \<noteq> Inl fuel_exhausted"
    and cv: "\<And>i. 2 * (length (env_input E) - i) + 1 \<le> n \<Longrightarrow> fst (compute_value n E i) \<noteq> Inl fuel_exhausted"
    and f: "2 * (length (env_input E) - i) + 2 \<le> Suc n" and m: "0 \<le> minp" and s: "precedence sen \<le> 0"
  shows "fst (compute_expression (Suc n) E i sen minp) \<noteq> Inl fuel_exhausted"
proof -
  let ?s = "env_input E"
  obtain r j o1 where a: "compute_value n E i = (r, j, o1)"
    by (cases "compute_value n E i")
  from f cv [of i] a have r: "r \<noteq> Inl fuel_exhausted" by simp
  show ?thesis
  proof (cases r)
    case (Inl e)
    with a r show ?thesis by simp
  next
    case (Inr v1)
    obtain ro k1 where b: "parse_operator ?s j BINARY (Some sen) = (ro, k1)"
      by (cases "parse_operator ?s j BINARY (Some sen)")
    show ?thesis
    proof (cases ro)
      case (Inl e)
      with b no_fuel_faults(1) [of ?s j BINARY "Some sen" k1] have "e \<noteq> fuel_exhausted" by auto
      with a Inr b Inl show ?thesis by simp
    next
      case op1: (Inr op1)
      from a Inr parser_cursor [of n E] have ij: "i \<le> j" by blast
      from b op1 have po: "parse_operator ?s j BINARY (Some sen) = (Inr op1, k1)" by simp
      note lt = parse_operator_result(2) [OF po]
      note inv = parse_operator_ends_at [OF po]
      have "minp < precedence op1 \<longrightarrow> 2 * (length ?s - k1) + 3 \<le> n"
      proof
        assume "minp < precedence op1"
        from unmatched_precedence [OF inv this m s] ij lt f show "2 * (length ?s - k1) + 3 \<le> n" by linarith
      qed
      from lp [OF this m s inv, of v1]
      obtain r' k' o' where "expression_loop n E k1 sen minp v1 op1 = (r', k', o')" "r' \<noteq> Inl fuel_exhausted"
        by (cases "expression_loop n E k1 sen minp v1 op1") auto
      with a Inr po show ?thesis by simp
    qed
  qed
qed


lemma fuel_step_loop:
  assumes ce: "\<And>i sen minp. 2 * (length (env_input E) - i) + 2 \<le> n \<Longrightarrow> 0 \<le> minp \<Longrightarrow> precedence sen \<le> 0
      \<Longrightarrow> fst (compute_expression n E i sen minp) \<noteq> Inl fuel_exhausted"
    and lp: "\<And>k sen minp v op. (minp < precedence op \<longrightarrow> 2 * (length (env_input E) - k) + 3 \<le> n)
      \<Longrightarrow> 0 \<le> minp \<Longrightarrow> precedence sen \<le> 0 \<Longrightarrow> operator_ends_at (env_input E) sen op k
      \<Longrightarrow> fst (expression_loop n E k sen minp v op) \<noteq> Inl fuel_exhausted"
    and f: "minp < precedence op \<longrightarrow> 2 * (length (env_input E) - k) + 3 \<le> Suc n" and m: "0 \<le> minp"
    and s: "precedence sen \<le> 0" and i: "operator_ends_at (env_input E) sen op k"
  shows "fst (expression_loop (Suc n) E k sen minp v op) \<noteq> Inl fuel_exhausted"
proof (cases "precedence op \<le> minp")
  case True
  then show ?thesis by simp
next
  case False
  let ?s = "env_input E"
  from False f have f': "2 * (length ?s - k) + 2 \<le> n" by simp
  from False m have m': "0 \<le> precedence op" by simp
  obtain r k' o1 where a: "compute_expression n E k sen (precedence op) = (r, k', o1)"
    by (cases "compute_expression n E k sen (precedence op)")
  from ce [OF f' m' s] a have r: "r \<noteq> Inl fuel_exhausted" by simp
  show ?thesis
  proof (cases r)
    case (Inl e)
    with a r False show ?thesis by simp
  next
    case (Inr vo)
    obtain nv nop where vo: "vo = (nv, nop)" by (cases vo)
    from a Inr vo parser_cursor [of n E]
    have kk: "k < k'" and inv: "operator_ends_at ?s sen nop k'" by blast+
    obtain re o2 where e: "evaluate_operator_binary (env_fpu E) (env_verbose E) op v nv = (re, o2)"
      by (cases "evaluate_operator_binary (env_fpu E) (env_verbose E) op v nv")
    show ?thesis
    proof (cases re)
      case (Inl e')
      with e no_fuel_faults(4) [of "env_fpu E" "env_verbose E" op v nv o2] have "e' \<noteq> fuel_exhausted"
        by auto
      with a False Inr vo e Inl show ?thesis by simp
    next
      case v': (Inr v')
      have "minp < precedence nop \<longrightarrow> 2 * (length ?s - k') + 3 \<le> n"
      proof
        assume "minp < precedence nop"
        from unmatched_precedence [OF inv this m s] kk f' show "2 * (length ?s - k') + 3 \<le> n" by linarith
      qed
      from lp [OF this m s inv, of v']
      obtain r' k'' o' where "expression_loop n E k' sen minp v' nop = (r', k'', o')" "r' \<noteq> Inl fuel_exhausted"
        by (cases "expression_loop n E k' sen minp v' nop") auto
      with a False Inr vo e v' show ?thesis by simp
    qed
  qed
qed

lemma fuel_step_value:
  assumes ce: "\<And>i sen minp. 2 * (length (env_input E) - i) + 2 \<le> n \<Longrightarrow> 0 \<le> minp \<Longrightarrow> precedence sen \<le> 0
      \<Longrightarrow> fst (compute_expression n E i sen minp) \<noteq> Inl fuel_exhausted"
    and cv: "\<And>i. 2 * (length (env_input E) - i) + 1 \<le> n \<Longrightarrow> fst (compute_value n E i) \<noteq> Inl fuel_exhausted"
    and f: "2 * (length (env_input E) - i) + 1 \<le> Suc n"
  shows "fst (compute_value (Suc n) E i) \<noteq> Inl fuel_exhausted"
proof -
  let ?s = "env_input E"
  obtain rv j1 where pv: "parse_value (env_libc E) ?s i (env_mode E) = (rv, j1)"
    by (cases "parse_value (env_libc E) ?s i (env_mode E)")
  note le = parse_value_cursor [OF pv]
  show ?thesis
  proof (cases rv)
    case (Inl e)
    with pv no_fuel_faults(2) [of "env_libc E" ?s i "env_mode E" j1] have "e \<noteq> fuel_exhausted" by auto
    with pv Inl show ?thesis by simp
  next
    case (Inr v1)
    show ?thesis
    proof (cases "encoding v1 \<noteq> None")
      case True
      with pv Inr show ?thesis by simp
    next
      case False
      obtain ro k where po: "parse_operator ?s j1 UNARY None = (ro, k)"
        by (cases "parse_operator ?s j1 UNARY None")
      show ?thesis
      proof (cases ro)
        case (Inl e)
        with po no_fuel_faults(1) [of ?s j1 UNARY None k] have "e \<noteq> fuel_exhausted" by auto
        with pv Inr False po Inl show ?thesis by simp
      next
        case uop: (Inr uop)
        with po have po': "parse_operator ?s j1 UNARY None = (Inr uop, k)" by simp
        from parse_operator_result(1) [OF po'] have ua: "arity uop = UNARY" by simp
        then have "uop \<noteq> END_EXPRESSION" by auto
        from parse_operator_result(3) [OF po' this] parse_operator_result(2) [OF po'] le
        have k: "i < k" "k \<le> length ?s" by simp_all
        with f have f1: "2 * (length ?s - k) + 2 \<le> n" and f2: "2 * (length ?s - k) + 1 \<le> n" by linarith+
        show ?thesis
        proof (cases "uop = OPEN_PAREN")
          case True
          have "fst (compute_expression n E k CLOSE_PAREN 0) \<noteq> Inl fuel_exhausted"
            by (rule ce [OF f1]) simp_all
          then obtain r' k' o' where "compute_expression n E k CLOSE_PAREN 0 = (r', k', o')"
            "r' \<noteq> Inl fuel_exhausted"
            by (cases "compute_expression n E k CLOSE_PAREN 0") auto
          with pv Inr False po' True show ?thesis
            by (cases r') auto
        next
          case np: False
          from cv [OF f2] obtain r' k' o' where c: "compute_value n E k = (r', k', o')"
            "r' \<noteq> Inl fuel_exhausted"
            by (cases "compute_value n E k") auto
          show ?thesis
          proof (cases r')
            case (Inl e)
            with pv \<open>rv = Inr v1\<close> False po' np ua c show ?thesis by simp
          next
            case res: (Inr res)
            obtain re o2 where e: "evaluate_operator_unary (env_fpu E) (env_verbose E) uop res = (re, o2)"
              by (cases "evaluate_operator_unary (env_fpu E) (env_verbose E) uop res")
            with no_fuel_faults(3) [of "env_fpu E" "env_verbose E" uop res o2]
            have "re \<noteq> Inl fuel_exhausted" by auto
            with pv \<open>rv = Inr v1\<close> False po' np ua c res e show ?thesis by simp
          qed
        qed
      qed
    qed
  qed
qed



lemma fuel_suffices:
  "(\<forall>i sen minp.
      2 * (length (env_input E) - i) + 2 \<le> n \<longrightarrow> 0 \<le> minp \<longrightarrow> precedence sen \<le> 0
      \<longrightarrow> fst (compute_expression n E i sen minp) \<noteq> Inl fuel_exhausted)
   \<and> (\<forall>k sen minp v op.
      (minp < precedence op \<longrightarrow> 2 * (length (env_input E) - k) + 3 \<le> n)
      \<longrightarrow> 0 \<le> minp \<longrightarrow> precedence sen \<le> 0 \<longrightarrow> operator_ends_at (env_input E) sen op k
      \<longrightarrow> fst (expression_loop n E k sen minp v op) \<noteq> Inl fuel_exhausted)
   \<and> (\<forall>i. 2 * (length (env_input E) - i) + 1 \<le> n
      \<longrightarrow> fst (compute_value n E i) \<noteq> Inl fuel_exhausted)"
proof (induction n)
  case 0
  show ?case by simp
next
  case (Suc n)
  then have ce: "\<And>i sen minp. 2 * (length (env_input E) - i) + 2 \<le> n \<Longrightarrow> 0 \<le> minp \<Longrightarrow> precedence sen \<le> 0
      \<Longrightarrow> fst (compute_expression n E i sen minp) \<noteq> Inl fuel_exhausted"
    and lp: "\<And>k sen minp v op. (minp < precedence op \<longrightarrow> 2 * (length (env_input E) - k) + 3 \<le> n)
      \<Longrightarrow> 0 \<le> minp \<Longrightarrow> precedence sen \<le> 0 \<Longrightarrow> operator_ends_at (env_input E) sen op k
      \<Longrightarrow> fst (expression_loop n E k sen minp v op) \<noteq> Inl fuel_exhausted"
    and cv: "\<And>i. 2 * (length (env_input E) - i) + 1 \<le> n \<Longrightarrow> fst (compute_value n E i) \<noteq> Inl fuel_exhausted"
    by blast+
  show ?case
  proof (intro conjI allI impI)
    fix i sen and minp :: int
    assume "2 * (length (env_input E) - i) + 2 \<le> Suc n" "0 \<le> minp" "precedence sen \<le> 0"
    with lp cv show "fst (compute_expression (Suc n) E i sen minp) \<noteq> Inl fuel_exhausted"
      by (rule fuel_step_expression)
  next
    fix k sen v op and minp :: int
    assume "minp < precedence op \<longrightarrow> 2 * (length (env_input E) - k) + 3 \<le> Suc n" "0 \<le> minp"
      "precedence sen \<le> 0" "operator_ends_at (env_input E) sen op k"
    with ce lp show "fst (expression_loop (Suc n) E k sen minp v op) \<noteq> Inl fuel_exhausted"
      by (rule fuel_step_loop)
  next
    fix i
    assume "2 * (length (env_input E) - i) + 1 \<le> Suc n"
    with ce cv show "fst (compute_value (Suc n) E i) \<noteq> Inl fuel_exhausted"
      by (rule fuel_step_value)
  qed
qed


text \<open>
  The evaluation of a line always ends within the bound \<open>handle_input\<close> gives: its
  result is a value or one of the exceptions of the program, never the exhaustion of
  the bound.
\<close>

theorem handle_input_fuel:
  "fst (handle_input C F verbose input mode) \<noteq> Inl (fuel_exhausted, k)"
proof -
  let ?E = "\<lparr>env_libc = C, env_fpu = F, env_verbose = verbose, env_input = input, env_mode = mode\<rparr>"
  obtain r j out where c: "compute_expression (2 * length input + 2) ?E 0 END_EXPRESSION 0 = (r, j, out)"
    by (cases "compute_expression (2 * length input + 2) ?E 0 END_EXPRESSION 0")
  have "fst (compute_expression (2 * length input + 2) ?E 0 END_EXPRESSION 0) \<noteq> Inl fuel_exhausted"
    using fuel_suffices [of ?E "2 * length input + 2"] by simp
  with c have "r \<noteq> Inl fuel_exhausted" by simp
  with c show ?thesis
    unfolding handle_input_def by (cases r) auto
qed

subsection \<open>Verbose tracing\<close>







subsection \<open>Trailing input\<close>

lemma strncmp_eq_take:
  "NUL \<notin> set b \<Longrightarrow> take (length b) a \<noteq> b \<Longrightarrow> \<not> strncmp_eq (length b) a b"
proof (induction b arbitrary: a)
  case Nil
  then show ?case by simp
next
  case (Cons c b)
  then show ?case
    by (cases a) (auto simp: NUL_def)
qed

lemma no_operator_matches:
  assumes "c_head (drop j s) \<noteq> NUL"
    and "\<forall>op. arity op = BINARY \<longrightarrow> take (length (identifier_str op)) (drop j s) \<noteq> identifier_str op"
  shows "\<not> operator_matches s j BINARY (Some END_EXPRESSION) op"
proof (cases "arity op = BINARY")
  case True
  then have "op \<noteq> END_EXPRESSION" by auto
  from assms(2) True have "take (length (identifier_str op)) (drop j s) \<noteq> identifier_str op" by simp
  from strncmp_eq_take [OF identifier_no_NUL this] show ?thesis
    by (simp add: operator_matches_def identifier_size_eq [OF \<open>op \<noteq> END_EXPRESSION\<close>])
next
  case False
  show ?thesis
  proof (cases "op = END_EXPRESSION")
    case True
    with assms(1) show ?thesis
      by (simp add: operator_matches_def identifier_size_def)
  next
    case ne: False
    with False show ?thesis by (simp add: operator_matches_def)
  qed
qed

lemma trailing_text_parse_error:
  assumes "c_head (drop (skip_whitespace s i) s) \<noteq> NUL"
    and "\<forall>op. arity op = BINARY
           \<longrightarrow> take (length (identifier_str op)) (drop (skip_whitespace s i) s) \<noteq> identifier_str op"
  shows "parse_operator s i BINARY (Some END_EXPRESSION) = (Inl parse_error, skip_whitespace s i)"
proof -
  have "find (operator_matches s (skip_whitespace s i) BINARY (Some END_EXPRESSION)) operator_table = None"
    using no_operator_matches [OF assms] by (simp add: find_None_iff)
  then show ?thesis
    by (simp add: parse_operator_def)
qed

lemma end_sentinel_only_at_NUL:
  assumes "parse_operator s i ar (Some END_EXPRESSION) = (Inr END_EXPRESSION, k)"
  shows "c_head (drop (skip_whitespace s i) s) = NUL \<and> k = skip_whitespace s i + 1"
proof -
  from assms have "find (operator_matches s (skip_whitespace s i) ar (Some END_EXPRESSION)) operator_table
      = Some END_EXPRESSION" and k: "k = skip_whitespace s i + identifier_size END_EXPRESSION"
    by (auto simp: parse_operator_def Let_def split: option.splits)
  then have "operator_matches s (skip_whitespace s i) ar (Some END_EXPRESSION) END_EXPRESSION"
    by (auto simp: find_Some_iff)
  with k show ?thesis
    by (simp add: operator_matches_def identifier_size_def split: if_splits)
qed

lemma value_is_whole_line:
  assumes "NUL \<notin> set input" and "fst (handle_input C F verbose input mode) = Inr v"
  shows "\<exists>k out. compute_expression (2 * length input + 2)
            \<lparr>env_libc = C, env_fpu = F, env_verbose = verbose, env_input = input, env_mode = mode\<rparr>
            0 END_EXPRESSION 0 = (Inr (v, END_EXPRESSION), k, out)
          \<and> length input < k"
proof -
  let ?E = "\<lparr>env_libc = C, env_fpu = F, env_verbose = verbose, env_input = input, env_mode = mode\<rparr>"
  obtain r k out where c: "compute_expression (2 * length input + 2) ?E 0 END_EXPRESSION 0 = (r, k, out)"
    by (cases "compute_expression (2 * length input + 2) ?E 0 END_EXPRESSION 0")
  have "\<exists>op. r = Inr (v, op)"
  proof (cases r)
    case (Inl e)
    with assms(2) c show ?thesis by (simp add: handle_input_def)
  next
    case (Inr vo)
    with assms(2) c show ?thesis by (cases vo) (simp add: handle_input_def)
  qed
  then obtain op where r: "r = Inr (v, op)" ..
  from c r have c': "compute_expression (2 * length input + 2) ?E 0 END_EXPRESSION 0 = (Inr (v, op), k, out)"
    by simp
  from parser_cursor [of "2 * length input + 2" ?E, THEN conjunct1, rule_format, OF c']
  have e: "operator_ends_at input END_EXPRESSION op k" and p: "precedence op \<le> 0"
    by simp_all
  from p binary_precedence [of op] have "arity op \<noteq> BINARY" by auto
  with e have op: "op = END_EXPRESSION" by (simp add: operator_ends_at_def)
  with e have k: "1 \<le> k" "c_head (drop (k - 1) input) = NUL" by (simp_all add: operator_ends_at_def)
  have "drop (k - 1) input = []"
  proof (cases "drop (k - 1) input")
    case (Cons x xs)
    then have "x \<in> set input" by (metis in_set_dropD list.set_intros(1))
    with k(2) Cons assms(1) show ?thesis by simp
  qed
  with k(1) have "length input < k" by simp
  with c r op show ?thesis by simp
qed

lemma trailing_after_first_value:
  assumes "c_head (drop (skip_whitespace input i) input) \<noteq> NUL"
    and "\<forall>op. arity op = BINARY
           \<longrightarrow> take (length (identifier_str op)) (drop (skip_whitespace input i) input) \<noteq> identifier_str op"
    and "compute_value (2 * length input + 1)
           \<lparr>env_libc = C, env_fpu = F, env_verbose = verbose, env_input = input, env_mode = mode\<rparr> 0
         = (Inr v, i, out)"
  shows "handle_input C F verbose input mode = (Inl (parse_error, skip_whitespace input i), out)"
proof -
  let ?E = "\<lparr>env_libc = C, env_fpu = F, env_verbose = verbose, env_input = input, env_mode = mode\<rparr>"
  have "compute_expression (Suc (2 * length input + 1)) ?E 0 END_EXPRESSION 0
      = (Inl parse_error, skip_whitespace input i, out)"
    using assms(3) trailing_text_parse_error [OF assms(1,2)] by (simp del: compute_value.simps)
  moreover have "Suc (2 * length input + 1) = 2 * length input + 2" by simp
  ultimately have "compute_expression (2 * length input + 2) ?E 0 END_EXPRESSION 0
      = (Inl parse_error, skip_whitespace input i, out)"
    by (simp only:)
  then show ?thesis
    by (simp only: handle_input_def prod.case sum.case)
qed



lemma trailing_lines:
  "handle_input C F verbose ''1 2'' U8 = (Inl (parse_error, 2), [])"
  "handle_input C F verbose ''1 )'' U8 = (Inl (parse_error, 2), [])"
  by code_simp+

text \<open>
  C10. Input left after a complete top-level expression is never ignored. A line
  returns a value only if its parse ended with the end-of-input sentinel, matched past
  every character of the line. That sentinel matches only where the text at the cursor,
  after white space, is the terminating NUL, and it consumes one character
  (\<open>max 1 (strlen "\0")\<close>). Where the text left after white space is neither the NUL
  nor a binary operator, the lookup that follows a complete expression raises the parse
  error there; so does the line when that text follows its first value. Under \<open>u8\<close>
  the lines \<open>1 2\<close> and \<open>1 )\<close> end in the parse error at offset 2.
\<close>

theorem C10_trailing_input:
  "(NUL \<notin> set input \<and> fst (handle_input C F verbose input mode) = Inr v
      \<longrightarrow> (\<exists>k out. compute_expression (2 * length input + 2)
              \<lparr>env_libc = C, env_fpu = F, env_verbose = verbose, env_input = input, env_mode = mode\<rparr>
              0 END_EXPRESSION 0 = (Inr (v, END_EXPRESSION), k, out)
            \<and> length input < k))
   \<and> (parse_operator input i ar (Some END_EXPRESSION) = (Inr END_EXPRESSION, k')
      \<longrightarrow> c_head (drop (skip_whitespace input i) input) = NUL \<and> k' = skip_whitespace input i + 1)
   \<and> (c_head (drop (skip_whitespace input i) input) \<noteq> NUL
       \<and> (\<forall>op. arity op = BINARY
             \<longrightarrow> take (length (identifier_str op)) (drop (skip_whitespace input i) input) \<noteq> identifier_str op)
      \<longrightarrow> parse_operator input i BINARY (Some END_EXPRESSION) = (Inl parse_error, skip_whitespace input i)
        \<and> (compute_value (2 * length input + 1)
              \<lparr>env_libc = C, env_fpu = F, env_verbose = verbose, env_input = input, env_mode = mode\<rparr> 0
            = (Inr v', i, out')
           \<longrightarrow> handle_input C F verbose input mode = (Inl (parse_error, skip_whitespace input i), out')))
   \<and> handle_input C F verbose ''1 2'' U8 = (Inl (parse_error, 2), [])
   \<and> handle_input C F verbose ''1 )'' U8 = (Inl (parse_error, 2), [])"
  using value_is_whole_line [of input C F verbose mode v]
    end_sentinel_only_at_NUL [of input i ar k']
    trailing_text_parse_error [of input i]
    trailing_after_first_value [of input i C F verbose mode v' out']
  by (simp add: trailing_lines)


theorem C10_trailing_input_witness:
  "\<forall>C F verbose.
     NUL \<notin> set ''7 '' \<and> fst (handle_input C F verbose ''7 '' U8) = Inr (VU8 7)
     \<and> (\<exists>k out. compute_expression (2 * length ''7 '' + 2)
            \<lparr>env_libc = C, env_fpu = F, env_verbose = verbose, env_input = ''7 '', env_mode = U8\<rparr>
            0 END_EXPRESSION 0 = (Inr (VU8 7, END_EXPRESSION), k, out)
          \<and> length ''7 '' < k)
     \<and> c_head (drop (skip_whitespace ''7 8'' 1) ''7 8'') \<noteq> NUL
     \<and> compute_value (2 * length ''7 8'' + 1)
          \<lparr>env_libc = C, env_fpu = F, env_verbose = verbose, env_input = ''7 8'', env_mode = U8\<rparr> 0
        = (Inr (VU8 7), 1, [])
     \<and> handle_input C F verbose ''7 8'' U8 = (Inl (parse_error, 2), [])"
proof (intro allI)
  fix C F verbose
  have a: "NUL \<notin> set ''7 ''"
    by (simp add: NUL_def)
  have b: "fst (handle_input C F verbose ''7 '' U8) = Inr (VU8 7)"
    by code_simp
  have s: "skip_whitespace ''7 8'' 1 = 2"
    by (simp add: skip_whitespace_def isspace_def)
  have c: "c_head (drop (skip_whitespace ''7 8'' 1) ''7 8'') \<noteq> NUL"
    unfolding s by (simp add: NUL_def)
  have d: "\<forall>op. arity op = BINARY
      \<longrightarrow> take (length (identifier_str op)) (drop (skip_whitespace ''7 8'' 1) ''7 8'') \<noteq> identifier_str op"
  proof (intro allI impI)
    fix op
    assume "arity op = BINARY"
    then show "take (length (identifier_str op)) (drop (skip_whitespace ''7 8'' 1) ''7 8'') \<noteq> identifier_str op"
      unfolding s by (cases op) simp_all
  qed
  have e: "compute_value (2 * length ''7 8'' + 1)
          \<lparr>env_libc = C, env_fpu = F, env_verbose = verbose, env_input = ''7 8'', env_mode = U8\<rparr> 0
        = (Inr (VU8 7), 1, [])"
    by code_simp
  note t1 = C10_trailing_input [where input = "''7 ''" and C = C and F = F and verbose = verbose
      and mode = U8 and v = "VU8 7"]
  note t2 = C10_trailing_input [where input = "''7 8''" and C = C and F = F and verbose = verbose
      and mode = U8 and i = 1 and v' = "VU8 7" and out' = "[]"]
  from t1 a b have p1: "\<exists>k out. compute_expression (2 * length ''7 '' + 2)
            \<lparr>env_libc = C, env_fpu = F, env_verbose = verbose, env_input = ''7 '', env_mode = U8\<rparr>
            0 END_EXPRESSION 0 = (Inr (VU8 7, END_EXPRESSION), k, out)
          \<and> length ''7 '' < k"
    by blast
  from t2 c d e have "handle_input C F verbose ''7 8'' U8
      = (Inl (parse_error, skip_whitespace ''7 8'' 1), [])"
    by blast
  then have p2: "handle_input C F verbose ''7 8'' U8 = (Inl (parse_error, 2), [])"
    unfolding s .
  from a b p1 c e p2
  show "NUL \<notin> set ''7 '' \<and> fst (handle_input C F verbose ''7 '' U8) = Inr (VU8 7)
     \<and> (\<exists>k out. compute_expression (2 * length ''7 '' + 2)
            \<lparr>env_libc = C, env_fpu = F, env_verbose = verbose, env_input = ''7 '', env_mode = U8\<rparr>
            0 END_EXPRESSION 0 = (Inr (VU8 7, END_EXPRESSION), k, out)
          \<and> length ''7 '' < k)
     \<and> c_head (drop (skip_whitespace ''7 8'' 1) ''7 8'') \<noteq> NUL
     \<and> compute_value (2 * length ''7 8'' + 1)
          \<lparr>env_libc = C, env_fpu = F, env_verbose = verbose, env_input = ''7 8'', env_mode = U8\<rparr> 0
        = (Inr (VU8 7), 1, [])
     \<and> handle_input C F verbose ''7 8'' U8 = (Inl (parse_error, 2), [])"
    by blast
qed

end
